theory Spec2Isabelle
  imports Main "HOL-Library.Word"
begin

unbundle bit_operations_syntax

section \<open>Bytes, cursors and errors\<close>

text \<open>
  The decoder of the key-file format (\<^verbatim>\<open>Parse\<close>, \<^verbatim>\<open>parseTPMPolicy\<close>,
  \<^verbatim>\<open>parseTPMAuthPolicy\<close>) walks a \<^verbatim>\<open>cryptobyte.String\<close>, which is a byte slice
  that every successful read shortens from the front. A cursor is therefore a list of bytes and
  every reader returns what it read together with the remaining cursor; a reader that returns
  \<^verbatim>\<open>false\<close> in Go returns \<open>None\<close> here.

  Go's \<^verbatim>\<open>error\<close> values are built with \<^verbatim>\<open>errors.New\<close> and
  \<^verbatim>\<open>fmt.Errorf\<close>; an error is modelled by its message. A function returning
  \<^verbatim>\<open>(T, error)\<close> is a sum \<open>error + T\<close> with \<open>Inl\<close> for the non-nil error.

  A slice of policies (\<^verbatim>\<open>[]*TPMPolicy\<close>) is a value of the type \<open>slice\<close> below, which
  keeps the nil slice apart from the empty slice that is not nil: the policy decoder returns
  the one or the other according to its input. \<^verbatim>\<open>len\<close> and \<^verbatim>\<open>append\<close> are
  Go's: both empty slices have length 0, and appending to the nil slice gives a slice that is
  not nil. Byte strings and the auth-policy slice, which the decoder only ever returns nil,
  are lists.
\<close>

type_synonym byte = "8 word"
type_synonym cursor = "byte list"
type_synonym error = string
type_synonym go_int = "64 word"

datatype 'a slice = NilSlice | Slice "'a list"

fun elems :: "'a slice \<Rightarrow> 'a list" where
  "elems NilSlice = []"
| "elems (Slice xs) = xs"

definition len :: "'a slice \<Rightarrow> nat" where
  "len s = length (elems s)"

definition append_slice :: "'a slice \<Rightarrow> 'a \<Rightarrow> 'a slice" where
  \<comment> \<open>\<^verbatim>\<open>append(s, x)\<close>\<close>
  "append_slice s x = Slice (elems s @ [x])"

subsection \<open>The readers of \<^verbatim>\<open>golang.org/x/crypto/cryptobyte\<close> used by the decoder\<close>

text \<open>
  These are the library functions the decoder calls, written after the library's
  \<^verbatim>\<open>asn1.go\<close> and \<^verbatim>\<open>string.go\<close> for a 64-bit platform
  (\<^verbatim>\<open>int\<close> is 64 bits wide).
\<close>

definition read :: "cursor \<Rightarrow> nat \<Rightarrow> (byte list \<times> cursor) option" where
  "read s n = (if length s < n then None else Some (take n s, drop n s))"

definition readUnsigned :: "byte list \<Rightarrow> nat" where
  \<comment> \<open>big-endian accumulation; the caller passes at most four bytes, so the 32-bit
      result does not overflow\<close>
  "readUnsigned v = foldl (\<lambda>result b. result * 256 + unat b) 0 v"

definition readASN1 :: "cursor \<Rightarrow> (byte \<times> byte list \<times> cursor) option" where
  \<comment> \<open>\<^verbatim>\<open>readASN1(out, outTag, skipHeader = true)\<close>: the tag, the element's contents
      and the cursor after the element\<close>
  "readASN1 s =
     (case s of
        tag # lenByte # _ \<Rightarrow>
          if tag AND 0x1f = 0x1f then None
          else if lenByte AND 0x80 = 0 then
            (case read s (unat lenByte + 2) of
               None \<Rightarrow> None
             | Some (out, rest) \<Rightarrow> Some (tag, drop 2 out, rest))
          else
            (let lenLen = unat (lenByte AND 0x7f) in
             if lenLen = 0 \<or> lenLen > 4 \<or> length s < 2 + lenLen then None
             else
               (let len32 = readUnsigned (take lenLen (drop 2 s)) in
                if len32 < 128 then None
                else if len32 div 2 ^ ((lenLen - 1) * 8) = 0 then None
                else
                  (let headerLen = 2 + lenLen in
                   if (headerLen + len32) mod 2 ^ 32 < len32 then None
                   else
                     (case read s ((headerLen + len32) mod 2 ^ 32) of
                        None \<Rightarrow> None
                      | Some (out, rest) \<Rightarrow> Some (tag, drop headerLen out, rest)))))
      | _ \<Rightarrow> None)"

definition ReadASN1 :: "cursor \<Rightarrow> byte \<Rightarrow> (byte list \<times> cursor) option" where
  "ReadASN1 s tag =
     (case readASN1 s of
        None \<Rightarrow> None
      | Some (t, out, rest) \<Rightarrow> if t \<noteq> tag then None else Some (out, rest))"

definition PeekASN1Tag :: "cursor \<Rightarrow> byte \<Rightarrow> bool" where
  "PeekASN1Tag s tag = (case s of [] \<Rightarrow> False | b # _ \<Rightarrow> b = tag)"

definition ReadOptionalASN1 :: "cursor \<Rightarrow> byte \<Rightarrow> (byte list option \<times> cursor) option" where
  \<comment> \<open>the inner option is \<^verbatim>\<open>outPresent\<close>: \<open>None\<close> when the tag is not next\<close>
  "ReadOptionalASN1 s tag =
     (if PeekASN1Tag s tag then
        (case ReadASN1 s tag of
           None \<Rightarrow> None
         | Some (out, rest) \<Rightarrow> Some (Some out, rest))
      else Some (None, s))"

definition ReadASN1Boolean :: "cursor \<Rightarrow> (bool \<times> cursor) option" where
  "ReadASN1Boolean s =
     (case ReadASN1 s 0x01 of
        None \<Rightarrow> None
      | Some (bytes, rest) \<Rightarrow>
          if length bytes \<noteq> 1 then None
          else if hd bytes = 0 then Some (False, rest)
          else if hd bytes = 0xff then Some (True, rest)
          else None)"

definition checkASN1Integer :: "byte list \<Rightarrow> bool" where
  "checkASN1Integer bytes =
     (case bytes of
        [] \<Rightarrow> False
      | [_] \<Rightarrow> True
      | b0 # b1 # _ \<Rightarrow>
          \<not> (b0 = 0 \<and> b1 AND 0x80 = 0 \<or> b0 = 0xff \<and> b1 AND 0x80 = 0x80))"

definition asn1Signed :: "byte list \<Rightarrow> go_int option" where
  "asn1Signed n =
     (if length n > 8 then None
      else
        (let out = foldl (\<lambda>out b. push_bit 8 out OR ucast b) 0 n;
             k = 64 - length n * 8
         in Some (signed_drop_bit k (push_bit k out))))"

definition ReadASN1Integer :: "cursor \<Rightarrow> (go_int \<times> cursor) option" where
  \<comment> \<open>\<^verbatim>\<open>ReadASN1Integer\<close> with an \<^verbatim>\<open>*int\<close> destination\<close>
  "ReadASN1Integer s =
     (case ReadASN1 s 0x02 of
        None \<Rightarrow> None
      | Some (bytes, rest) \<Rightarrow>
          if \<not> checkASN1Integer bytes then None
          else (case asn1Signed bytes of None \<Rightarrow> None | Some i \<Rightarrow> Some (i, rest)))"

fun readBase128Int :: "nat \<Rightarrow> nat \<Rightarrow> cursor \<Rightarrow> (nat \<times> cursor) option" where
  \<comment> \<open>the loop of \<^verbatim>\<open>readBase128Int\<close>, with its counter \<open>i\<close> and accumulator
      \<open>ret\<close>; running out of bytes is the truncated case. The accumulator's low seven
      bits are zero after the shift, so \<^verbatim>\<open>ret |= int(b & 0x7f)\<close> adds\<close>
  "readBase128Int i ret [] = None"
| "readBase128Int i ret (b # s) =
     (if i = 5 then None
      else if ret \<ge> 2 ^ 24 then None
      else if i = 0 \<and> b = 0x80 then None
      else
        (let ret' = ret * 128 + unat (b AND 0x7f) in
         if b AND 0x80 = 0 then Some (ret', s)
         else readBase128Int (i + 1) ret' s))"

function oidComponents :: "cursor \<Rightarrow> nat list option" where
  \<comment> \<open>the loop \<^verbatim>\<open>for ; len(bytes) > 0; i++\<close> of
      \<^verbatim>\<open>ReadASN1ObjectIdentifier\<close>, collecting the components after the first\<close>
  "oidComponents bytes =
     (if bytes = [] then Some []
      else
        (case readBase128Int 0 0 bytes of
           None \<Rightarrow> None
         | Some (v, bytes') \<Rightarrow>
             (case oidComponents bytes' of
                None \<Rightarrow> None
              | Some vs \<Rightarrow> Some (v # vs))))"
  by pat_completeness auto
termination
proof -
  have shorter: "length s' < length s" if "readBase128Int i ret s = Some (v, s')"
    for i ret s v s'
    using that
  proof (induction s arbitrary: i ret)
    case Nil
    then show ?case by simp
  next
    case (Cons b s)
    show ?case
    proof (cases "b AND 0x80 = 0")
      case True
      with Cons.prems show ?thesis
        by (simp add: Let_def split: if_splits)
    next
      case False
      with Cons.prems
      have "readBase128Int (i + 1) (ret * 128 + unat (b AND 0x7f)) s = Some (v, s')"
        by (simp add: Let_def split: if_splits)
      from Cons.IH [OF this] show ?thesis by simp
    qed
  qed
  show ?thesis
    by (relation "measure length") (auto dest: shorter)
qed

declare oidComponents.simps [simp del]

definition ReadASN1ObjectIdentifier :: "cursor \<Rightarrow> (nat list \<times> cursor) option" where
  "ReadASN1ObjectIdentifier s =
     (case ReadASN1 s 0x06 of
        None \<Rightarrow> None
      | Some (bytes, rest) \<Rightarrow>
          if length bytes = 0 then None
          else
            (case readBase128Int 0 0 bytes of
               None \<Rightarrow> None
             | Some (v, bytes') \<Rightarrow>
                 (case oidComponents bytes' of
                    None \<Rightarrow> None
                  | Some vs \<Rightarrow>
                      Some ((if v < 80 then [v div 40, v mod 40] else [2, v - 80]) @ vs, rest))))"

fun utf8_Valid :: "byte list \<Rightarrow> bool" where
  \<comment> \<open>\<^verbatim>\<open>unicode/utf8.Valid\<close>: well-formed UTF-8 without overlong forms, surrogates
      or code points above U+10FFFF\<close>
  "utf8_Valid [] = True"
| "utf8_Valid (b0 # bs) =
     (if b0 < 0x80 then utf8_Valid bs
      else if 0xC2 \<le> b0 \<and> b0 \<le> 0xDF then
        (case bs of
           b1 # r \<Rightarrow> 0x80 \<le> b1 \<and> b1 \<le> 0xBF \<and> utf8_Valid r
         | _ \<Rightarrow> False)
      else if 0xE0 \<le> b0 \<and> b0 \<le> 0xEF then
        (case bs of
           b1 # b2 # r \<Rightarrow>
             (if b0 = 0xE0 then 0xA0 else 0x80) \<le> b1 \<and>
             b1 \<le> (if b0 = 0xED then 0x9F else 0xBF) \<and>
             0x80 \<le> b2 \<and> b2 \<le> 0xBF \<and> utf8_Valid r
         | _ \<Rightarrow> False)
      else if 0xF0 \<le> b0 \<and> b0 \<le> 0xF4 then
        (case bs of
           b1 # b2 # b3 # r \<Rightarrow>
             (if b0 = 0xF0 then 0x90 else 0x80) \<le> b1 \<and>
             b1 \<le> (if b0 = 0xF4 then 0x8F else 0xBF) \<and>
             0x80 \<le> b2 \<and> b2 \<le> 0xBF \<and> 0x80 \<le> b3 \<and> b3 \<le> 0xBF \<and> utf8_Valid r
         | _ \<Rightarrow> False)
      else False)"

section \<open>The data model\<close>

text \<open>
  The structures of the decoder's file: a policy is a command code with the policy bytes, an
  auth-policy a name with its policies, and \<^verbatim>\<open>TPMKey\<close> the parsed key. The two
  structures with a \<^verbatim>\<open>policy\<close> field keep apart by the selector prefix \<open>ap_\<close>.
\<close>

datatype TPMPolicy = TPMPolicy (commandCode: go_int) (commandPolicy: "byte list")

datatype TPMAuthPolicy = TPMAuthPolicy (ap_name: "byte list") (ap_policy: "TPMPolicy slice")

record TPMKey =
  keytype :: "nat list"
  emptyAuth :: bool
  policy :: "TPMPolicy slice"
  secret :: "byte list"
  authPolicy :: "TPMAuthPolicy list"
  Parent :: go_int
  Pubkey :: "byte list"
  Privkey :: "byte list"

definition OIDOldLoadableKey :: "nat list" where
  "OIDOldLoadableKey = [2, 23, 133, 10, 2]"

definition OIDLoadableKey :: "nat list" where
  "OIDLoadableKey = [2, 23, 133, 10, 1, 3]"

definition OIDImportbleKey :: "nat list" where
  "OIDImportbleKey = [2, 23, 133, 10, 1, 4]"

definition OIDSealedKey :: "nat list" where
  "OIDSealedKey = [2, 23, 133, 10, 1, 5]"

definition ErrNotTPMKey :: error where
  "ErrNotTPMKey = ''not a TSS2 PRIVATE KEY''"

section \<open>The decoder\<close>

text \<open>
  \<^verbatim>\<open>encoding/pem.Decode\<close> belongs to Go's standard library and is a parameter of the
  model: it maps the armored text to its first block, of which the decoder uses the type label
  and the payload.
\<close>

datatype pem_Block = Block (Block_Type: string) (Block_Bytes: "byte list")

definition unwrapPEM :: "(byte list \<Rightarrow> pem_Block option) \<Rightarrow> byte list \<Rightarrow> error + byte list" where
  "unwrapPEM pem_Decode p =
     (case pem_Decode p of
        None \<Rightarrow> Inl ''not an armored key''
      | Some block \<Rightarrow>
          if Block_Type block = ''TSS2 PRIVATE KEY'' then Inr (Block_Bytes block)
          else Inl ErrNotTPMKey)"

definition parseTPMPolicy :: "cursor \<Rightarrow> error + (TPMPolicy slice \<times> cursor)" where
  \<comment> \<open>the result carries the cursor \<^verbatim>\<open>der\<close> as the function leaves it. The
      source returns the literal \<^verbatim>\<open>[]*TPMPolicy{}\<close>, empty and not nil, when the
      wrapper is absent, and otherwise the variable \<^verbatim>\<open>tpmpolicies\<close>, which is nil
      until the one \<^verbatim>\<open>append\<close>\<close>
  "parseTPMPolicy der =
     (case ReadOptionalASN1 der 0xA1 of
        None \<Rightarrow> Inl ''should have policy, failed reading''
      | Some (None, der') \<Rightarrow> Inr (Slice [], der')
      | Some (Some policy', der') \<Rightarrow>
          (case ReadASN1 policy' 0x30 of
             None \<Rightarrow> Inl ''malformed policy sequence''
           | Some (policySequence, _) \<Rightarrow>
               if policySequence \<noteq> [] then
                 (case ReadASN1 policySequence 0x30 of
                    None \<Rightarrow> Inl ''malformed policy sequence''
                  | Some (policyBytes, _) \<Rightarrow>
                      (case ReadASN1 policyBytes 0xA0 of
                         None \<Rightarrow> Inl ''strip tag from commandCode''
                       | Some (ccBytes, policyBytes') \<Rightarrow>
                           (case ReadASN1Integer ccBytes of
                              None \<Rightarrow> Inl ''malformed policy commandCode''
                            | Some (cc, _) \<Rightarrow>
                                (case ReadASN1 policyBytes' 0xA1 of
                                   None \<Rightarrow> Inl ''strip tag from commandPolicy''
                                 | Some (cpBytes, _) \<Rightarrow>
                                     (case ReadASN1 cpBytes 0x04 of
                                        None \<Rightarrow> Inl ''malformed policy commandPolicy''
                                      | Some (cp, _) \<Rightarrow>
                                          Inr (append_slice NilSlice
                                                 (TPMPolicy cc cp), der'))))))
               else Inr (NilSlice, der')))"

definition parseTPMAuthPolicy :: "cursor \<Rightarrow> error + (TPMAuthPolicy list \<times> cursor)" where
  \<comment> \<open>\<^verbatim>\<open>tpmAuthPolicy\<close> is filled in and dropped: the last statement is
      \<^verbatim>\<open>return nil, nil\<close>\<close>
  "parseTPMAuthPolicy der =
     (case ReadOptionalASN1 der 0xA3 of
        None \<Rightarrow> Inl ''should have authPolicy, failed reading''
      | Some (None, der') \<Rightarrow> Inr ([], der')
      | Some (Some sAuthPolicy, der') \<Rightarrow>
          (case ReadASN1 sAuthPolicy 0x30 of
             None \<Rightarrow> Inl ''malformed auth policy sequence''
           | Some (authPolicySequence, _) \<Rightarrow>
               if authPolicySequence \<noteq> [] then
                 (case ReadASN1 authPolicySequence 0x30 of
                    None \<Rightarrow> Inl ''malformed auth policy sequence''
                  | Some (authPolicyBytes, _) \<Rightarrow>
                      (case ReadOptionalASN1 authPolicyBytes 0xA0 of
                         None \<Rightarrow> Inl ''strip tag from commandCode''
                       | Some (nameBytes, authPolicyBytes') \<Rightarrow>
                           (case
                              (case nameBytes of
                                 None \<Rightarrow> Inr []
                               | Some nb \<Rightarrow>
                                   (case ReadASN1 nb 0x0c of
                                      None \<Rightarrow> Inl ''malformed utf8string in auth policy name''
                                    | Some (nameB, _) \<Rightarrow>
                                        if \<not> utf8_Valid nameB
                                        then Inl ''invalid utf8 bytes in name of auth policy''
                                        else Inr nameB))
                            of
                              Inl err \<Rightarrow> Inl err
                            | Inr name \<Rightarrow>
                                (case parseTPMPolicy authPolicyBytes' of
                                   Inl err \<Rightarrow>
                                     Inl (''failed parsing tpm policies in auth policy: '' @ err)
                                 | Inr (tpmpolicies, _) \<Rightarrow>
                                     if len tpmpolicies = 0
                                     then Inl ''tpm policies in auth policy is empty''
                                     else Inr ([], der')))))
               else Inr ([], der')))"

definition Parse_der :: "byte list \<Rightarrow> error + TPMKey" where
  \<comment> \<open>the statements of \<^verbatim>\<open>Parse\<close> after \<^verbatim>\<open>unwrapPEM\<close>, on the
      payload of the PEM block\<close>
  "Parse_der b =
     (case ReadASN1 b 0x30 of
        None \<Rightarrow> Inl ''no sequence''
      | Some (s, _) \<Rightarrow>
     (case ReadASN1ObjectIdentifier s of
        None \<Rightarrow> Inl ''no contentinfo oid''
      | Some (oid, s) \<Rightarrow>
     if \<not> (oid = OIDLoadableKey \<or> oid = OIDImportbleKey \<or> oid = OIDSealedKey
           \<or> oid = OIDOldLoadableKey)
     then Inl ''unknown key type''
     else
     (case ReadOptionalASN1 s 0xA0 of
        None \<Rightarrow> Inl ''should have emptyAuth, failed reading''
      | Some (emptyAuth', s) \<Rightarrow>
     (case (case emptyAuth' of
              None \<Rightarrow> Some False
            | Some ea \<Rightarrow> map_option fst (ReadASN1Boolean ea)) of
        None \<Rightarrow> Inl ''no emptyAuth bool''
      | Some auth \<Rightarrow>
     (case parseTPMPolicy s of
        Inl err \<Rightarrow> Inl (''failed reading TPMPolicy: '' @ err)
      | Inr (policy', s) \<Rightarrow>
     (case ReadOptionalASN1 s 0xA2 of
        None \<Rightarrow> Inl ''should have secret, failed reading''
      | Some (sSecret, s) \<Rightarrow>
     (case (case sSecret of
              None \<Rightarrow> Some []
            | Some ss \<Rightarrow> map_option fst (ReadASN1 ss 0x04)) of
        None \<Rightarrow> Inl ''could not parse secret''
      | Some secret' \<Rightarrow>
     (case parseTPMAuthPolicy s of
        Inl err \<Rightarrow> Inl (''failed reading TPMAuthPolicy: '' @ err)
      | Inr (authPolicy', s) \<Rightarrow>
     (case ReadASN1Integer s of
        None \<Rightarrow> Inl ''failed reading parent''
      | Some (parent, s) \<Rightarrow>
     (case ReadASN1 s 0x04 of
        None \<Rightarrow> Inl ''could not parse pubkey''
      | Some (pubkey, s) \<Rightarrow>
     (case ReadASN1 s 0x04 of
        None \<Rightarrow> Inl ''could not parse privkey''
      | Some (privkey, _) \<Rightarrow>
          Inr \<lparr>keytype = oid, emptyAuth = auth, policy = policy', secret = secret',
               authPolicy = authPolicy', Parent = parent, Pubkey = pubkey,
               Privkey = privkey\<rparr>)))))))))))"

definition Parse :: "(byte list \<Rightarrow> pem_Block option) \<Rightarrow> byte list \<Rightarrow> error + TPMKey" where
  "Parse pem_Decode b =
     (case unwrapPEM pem_Decode b of
        Inl err \<Rightarrow> Inl err
      | Inr der \<Rightarrow> Parse_der der)"

section \<open>Attribute queries, public-key reconstruction, verifier and signer\<close>

text \<open>
  \<^verbatim>\<open>keyfile.go\<close> reads the public area through \<^verbatim>\<open>t.Pubkey.Contents()\<close>
  of the go-tpm library, which gives the parsed \<^verbatim>\<open>TPMTPublic\<close> or an error. The
  library is not part of the repository: \<open>Contents\<close> is a parameter here, applied to the Key's
  public-area octets, and \<^verbatim>\<open>TPMTPublic\<close> is modelled with the fields the sources
  read. Its two unions answer \<^verbatim>\<open>ECC()\<close>, \<^verbatim>\<open>ECCDetail()\<close>,
  \<^verbatim>\<open>RSA()\<close> and \<^verbatim>\<open>RSADetail()\<close> with an error when they hold another
  alternative. The numeric identifiers are those of the TPM 2.0 specification.

  A Go \<^verbatim>\<open>panic\<close> is the outcome \<open>Panicked\<close>; a pointer that may be nil is an option.
\<close>

datatype 'a outcome = Returned 'a | Panicked string

type_synonym TPMAlgID = "16 word"
type_synonym TPMECCCurve = "16 word"

definition TPMAlgRSA :: TPMAlgID where "TPMAlgRSA = 0x0001"
definition TPMAlgECC :: TPMAlgID where "TPMAlgECC = 0x0023"
definition TPMECCNistP256 :: TPMECCCurve where "TPMECCNistP256 = 0x0003"
definition TPMECCNistP384 :: TPMECCCurve where "TPMECCNistP384 = 0x0004"
definition TPMECCNistP521 :: TPMECCCurve where "TPMECCNistP521 = 0x0005"

datatype TPMSECCParms = TPMSECCParms (CurveID: TPMECCCurve)
datatype TPMSRSAParms = TPMSRSAParms (KeyBits: "16 word") (Exponent: "32 word")
datatype TPMSECCPoint = TPMSECCPoint (point_X: "byte list") (point_Y: "byte list")

datatype TPMUPublicParms = ParmsECC TPMSECCParms | ParmsRSA TPMSRSAParms | ParmsOther
datatype TPMUPublicID = UniqueECC TPMSECCPoint | UniqueRSA "byte list" | UniqueOther

record TPMTPublic =
  Type :: TPMAlgID
  SignEncrypt :: bool  \<comment> \<open>\<^verbatim>\<open>ObjectAttributes.SignEncrypt\<close>\<close>
  Parameters :: TPMUPublicParms
  Unique :: TPMUPublicID

definition ECC :: "TPMUPublicID \<Rightarrow> error + TPMSECCPoint" where
  "ECC u = (case u of UniqueECC pt \<Rightarrow> Inr pt | _ \<Rightarrow> Inl ''did not contain ecc'')"

definition RSA :: "TPMUPublicID \<Rightarrow> error + byte list" where
  "RSA u = (case u of UniqueRSA n \<Rightarrow> Inr n | _ \<Rightarrow> Inl ''did not contain rsa'')"

definition ECCDetail :: "TPMUPublicParms \<Rightarrow> error + TPMSECCParms" where
  "ECCDetail u = (case u of ParmsECC d \<Rightarrow> Inr d | _ \<Rightarrow> Inl ''did not contain eccDetail'')"

definition RSADetail :: "TPMUPublicParms \<Rightarrow> error + TPMSRSAParms" where
  "RSADetail u = (case u of ParmsRSA d \<Rightarrow> Inr d | _ \<Rightarrow> Inl ''did not contain rsaDetail'')"

datatype elliptic_Curve = P256 | P384 | P521

record ecdsa_PublicKey =
  Curve :: elliptic_Curve
  X :: nat
  Y :: nat

record rsa_PublicKey =
  N :: nat
  E :: int

definition SetBytes :: "byte list \<Rightarrow> nat" where
  \<comment> \<open>\<^verbatim>\<open>big.NewInt(0).SetBytes(buf)\<close>: the bytes as a big-endian unsigned integer\<close>
  "SetBytes buf = foldl (\<lambda>n b. n * 256 + unat b) 0 buf"

definition HasSinger :: "(byte list \<Rightarrow> error + TPMTPublic) \<Rightarrow> TPMKey \<Rightarrow> bool outcome" where
  "HasSinger Contents t =
     (case Contents (Pubkey t) of
        Inl err \<Rightarrow> Panicked ''can't serialize public key''
      | Inr pub \<Rightarrow> Returned (SignEncrypt pub))"

definition HasAuth :: "TPMKey \<Rightarrow> bool" where
  "HasAuth t = (\<not> emptyAuth t)"

definition KeyAlgo :: "(byte list \<Rightarrow> error + TPMTPublic) \<Rightarrow> TPMKey \<Rightarrow> TPMAlgID outcome" where
  "KeyAlgo Contents t =
     (case Contents (Pubkey t) of
        Inl err \<Rightarrow> Panicked ''can't serialize public key''
      | Inr pub \<Rightarrow> Returned (Type pub))"

definition ecdsaPubKey ::
  "(byte list \<Rightarrow> error + TPMTPublic) \<Rightarrow> TPMKey \<Rightarrow> error + ecdsa_PublicKey option" where
  \<comment> \<open>the result is the pair \<^verbatim>\<open>(*ecdsa.PublicKey, error)\<close>: \<open>Inr None\<close> is the nil
      key returned with a nil error\<close>
  "ecdsaPubKey Contents t =
     (case Contents (Pubkey t) of
        Inl err \<Rightarrow> Inl ''can't serialize public key contents''
      | Inr pub \<Rightarrow>
          (case ECC (Unique pub) of
             Inl err \<Rightarrow> Inl err
           | Inr ecc \<Rightarrow>
               (case ECCDetail (Parameters pub) of
                  Inl err \<Rightarrow> Inl err
                | Inr eccdeets \<Rightarrow>
                    Inr (if CurveID eccdeets = TPMECCNistP256 then
                           Some \<lparr>Curve = P256, X = SetBytes (point_X ecc),
                                 Y = SetBytes (point_Y ecc)\<rparr>
                         else if CurveID eccdeets = TPMECCNistP384 then
                           Some \<lparr>Curve = P384, X = SetBytes (point_X ecc),
                                 Y = SetBytes (point_Y ecc)\<rparr>
                         else if CurveID eccdeets = TPMECCNistP521 then
                           Some \<lparr>Curve = P521, X = SetBytes (point_X ecc),
                                 Y = SetBytes (point_Y ecc)\<rparr>
                         else None))))"

definition rsaPubKey ::
  "(byte list \<Rightarrow> error + TPMTPublic) \<Rightarrow> (TPMSRSAParms \<Rightarrow> byte list \<Rightarrow> error + rsa_PublicKey)
     \<Rightarrow> TPMKey \<Rightarrow> error + rsa_PublicKey" where
  \<comment> \<open>\<open>RSAPub\<close> is go-tpm's \<^verbatim>\<open>tpm2.RSAPub\<close>, a parameter\<close>
  "rsaPubKey Contents RSAPub t =
     (case Contents (Pubkey t) of
        Inl err \<Rightarrow> Inl ''can't serialize public key contents''
      | Inr pub \<Rightarrow>
          (case RSADetail (Parameters pub) of
             Inl err \<Rightarrow> Inl (''failed getting rsa details: '' @ err)
           | Inr rsaDetail \<Rightarrow>
               (case RSA (Unique pub) of
                  Inl err \<Rightarrow> Inl (''failed getting unique rsa: '' @ err)
                | Inr rsaUnique \<Rightarrow> RSAPub rsaDetail rsaUnique)))"

text \<open>
  \<^verbatim>\<open>PublicKey\<close> returns \<^verbatim>\<open>(any, error)\<close>. The interface value holds what the
  branch returned: the pointer from \<^verbatim>\<open>ecdsaPubKey\<close> (also when it is nil), the one
  from \<^verbatim>\<open>rsaPubKey\<close>, or nothing.
\<close>

datatype any_key =
  ECDSAKey "ecdsa_PublicKey option" | RSAKey "rsa_PublicKey option" | NilKey

definition PublicKey ::
  "(byte list \<Rightarrow> error + TPMTPublic) \<Rightarrow> (TPMSRSAParms \<Rightarrow> byte list \<Rightarrow> error + rsa_PublicKey)
     \<Rightarrow> TPMKey \<Rightarrow> (any_key \<times> error option) outcome" where
  "PublicKey Contents RSAPub t =
     (case KeyAlgo Contents t of
        Panicked msg \<Rightarrow> Panicked msg
      | Returned alg \<Rightarrow>
          if alg = TPMAlgECC then
            (case ecdsaPubKey Contents t of
               Inl err \<Rightarrow> Returned (ECDSAKey None, Some err)
             | Inr pk \<Rightarrow> Returned (ECDSAKey pk, None))
          else if alg = TPMAlgRSA then
            (case rsaPubKey Contents RSAPub t of
               Inl err \<Rightarrow> Returned (RSAKey None, Some err)
             | Inr pk \<Rightarrow> Returned (RSAKey (Some pk), None))
          else Returned (NilKey, Some ''no public key''))"

definition Verify ::
  "(byte list \<Rightarrow> error + TPMTPublic) \<Rightarrow> (TPMSRSAParms \<Rightarrow> byte list \<Rightarrow> error + rsa_PublicKey)
     \<Rightarrow> (ecdsa_PublicKey option \<Rightarrow> byte list \<Rightarrow> byte list \<Rightarrow> bool)
     \<Rightarrow> (rsa_PublicKey option \<Rightarrow> 'hash \<Rightarrow> byte list \<Rightarrow> byte list \<Rightarrow> error option)
     \<Rightarrow> TPMKey \<Rightarrow> 'hash \<Rightarrow> byte list \<Rightarrow> byte list \<Rightarrow> (bool \<times> error option) outcome" where
  \<comment> \<open>\<open>VerifyASN1\<close> and \<open>VerifyPKCS1v15\<close> are \<^verbatim>\<open>ecdsa.VerifyASN1\<close> and
      \<^verbatim>\<open>rsa.VerifyPKCS1v15\<close> of Go's standard library, parameters; they receive
      the key pointer as the type switch binds it. \<^verbatim>\<open>ecdsa.VerifyASN1\<close> reads the
      curve through the pointer, so that the nil pointer, which \<^verbatim>\<open>ecdsaPubKey\<close>
      returns without error for a curve it does not know, makes it panic\<close>
  "Verify Contents RSAPub VerifyASN1 VerifyPKCS1v15 t alg hashed sig =
     (case PublicKey Contents RSAPub t of
        Panicked msg \<Rightarrow> Panicked msg
      | Returned (pubkey, err) \<Rightarrow>
          (case err of
             Some e \<Rightarrow> Returned (False, Some (''failed getting pubkey: '' @ e))
           | None \<Rightarrow>
               (case pubkey of
                  ECDSAKey None \<Rightarrow>
                    Panicked ''runtime error: invalid memory address or nil pointer dereference''
                | ECDSAKey (Some pk) \<Rightarrow>
                    if \<not> VerifyASN1 (Some pk) hashed sig
                    then Returned (False, Some ''invalid signature'')
                    else Returned (True, None)
                | RSAKey pk \<Rightarrow>
                    (case VerifyPKCS1v15 pk alg hashed sig of
                       Some e \<Rightarrow>
                         Returned (False, Some (''signature verification failed: '' @ e))
                     | None \<Rightarrow> Returned (True, None))
                | NilKey \<Rightarrow> Returned (True, None))))"

definition Signer ::
  "(byte list \<Rightarrow> error + TPMTPublic)
     \<Rightarrow> (TPMKey \<Rightarrow> (unit \<Rightarrow> byte list \<times> error option) \<Rightarrow> (unit \<Rightarrow> 'tpm)
           \<Rightarrow> (TPMKey \<Rightarrow> byte list \<times> error option) \<Rightarrow> 'signer)
     \<Rightarrow> TPMKey \<Rightarrow> 'tpm \<Rightarrow> byte list \<Rightarrow> byte list \<Rightarrow> ('signer option \<times> error option) outcome" where
  \<comment> \<open>\<open>NewTPMKeySigner\<close> is the repository's constructor of the signer, which is not among
      the sources: a parameter. It receives the key and the three closures.\<close>
  "Signer Contents NewTPMKeySigner t tpm ownerAuth auth =
     (case HasSinger Contents t of
        Panicked msg \<Rightarrow> Panicked msg
      | Returned has \<Rightarrow>
          if \<not> has then Returned (None, Some ''does not have sign/encrypt attribute set'')
          else Returned (Some (NewTPMKeySigner t (\<lambda>_. (ownerAuth, None)) (\<lambda>_. tpm)
                                 (\<lambda>_. (auth, None))), None))"

section \<open>The encoder\<close>

text \<open>
  \<^verbatim>\<open>Bytes\<close> in \<^verbatim>\<open>keyfile.go\<close> returns what the repository's
  \<^verbatim>\<open>Encode\<close> writes, and \<^verbatim>\<open>Encode\<close> is not among the sources. It is
  modelled from the specification, on the payload of the PEM block: the wire format of the
  specification's section 6 in DER, every element with its shortest length form and an
  integer with its shortest two's complement form.
\<close>

definition der_length :: "nat \<Rightarrow> byte list" where
  \<comment> \<open>Modelled from the spec: Encode is missing from the sources; this is the DER
      shortest-form length of section 4.1, for lengths below \<open>2 ^ 32\<close>\<close>
  "der_length n =
     (if n < 0x80 then [of_nat n]
      else if n < 0x100 then [0x81, of_nat n]
      else if n < 0x10000 then [0x82, of_nat (n div 0x100), of_nat n]
      else if n < 0x1000000 then [0x83, of_nat (n div 0x10000), of_nat (n div 0x100), of_nat n]
      else [0x84, of_nat (n div 0x1000000), of_nat (n div 0x10000), of_nat (n div 0x100),
            of_nat n])"

definition add_asn1 :: "byte \<Rightarrow> byte list \<Rightarrow> byte list" where
  \<comment> \<open>Modelled from the spec: Encode is missing from the sources; one element is its tag,
      its length and its contents\<close>
  "add_asn1 tag content = tag # der_length (length content) @ content"

fun int_octets :: "nat \<Rightarrow> go_int \<Rightarrow> byte list" where
  \<comment> \<open>Modelled from the spec: Encode is missing from the sources; the low \<open>n\<close> octets of
      an integer, most significant first\<close>
  "int_octets 0 v = []"
| "int_octets (Suc n) v = ucast (drop_bit (8 * n) v) # int_octets n v"

fun int_size_from :: "nat \<Rightarrow> nat \<Rightarrow> go_int \<Rightarrow> nat" where
  \<comment> \<open>Modelled from the spec: Encode is missing from the sources; the search for the
      least number of octets, at least \<open>n\<close>, whose sign extension is the integer\<close>
  "int_size_from 0 n v = n"
| "int_size_from (Suc fuel) n v =
     (if signed_take_bit (8 * n - 1) v = v then n else int_size_from fuel (Suc n) v)"

definition int_size :: "go_int \<Rightarrow> nat" where
  \<comment> \<open>Modelled from the spec: Encode is missing from the sources; between 1 and 8 octets\<close>
  "int_size v = int_size_from 7 1 v"

definition der_integer :: "go_int \<Rightarrow> byte list" where
  \<comment> \<open>Modelled from the spec: Encode is missing from the sources; INTEGER\<close>
  "der_integer v = add_asn1 0x02 (int_octets (int_size v) v)"

definition der_boolean :: "bool \<Rightarrow> byte list" where
  \<comment> \<open>Modelled from the spec: Encode is missing from the sources; BOOLEAN, true as FF\<close>
  "der_boolean b = add_asn1 0x01 [if b then 0xff else 0x00]"

definition base128Int :: "nat \<Rightarrow> byte list" where
  \<comment> \<open>Modelled from the spec: Encode is missing from the sources; one component of an
      object identifier in base 128, for components below \<open>2 ^ 28\<close>\<close>
  "base128Int n =
     (if n < 0x80 then [of_nat n]
      else if n < 0x4000 then [0x80 OR of_nat (n div 0x80), of_nat (n mod 0x80)]
      else if n < 0x200000 then
        [0x80 OR of_nat (n div 0x4000), 0x80 OR of_nat (n div 0x80 mod 0x80), of_nat (n mod 0x80)]
      else
        [0x80 OR of_nat (n div 0x200000), 0x80 OR of_nat (n div 0x4000 mod 0x80),
         0x80 OR of_nat (n div 0x80 mod 0x80), of_nat (n mod 0x80)])"

definition der_oid :: "nat list \<Rightarrow> byte list" where
  \<comment> \<open>Modelled from the spec: Encode is missing from the sources; OBJECT IDENTIFIER\<close>
  "der_oid oid =
     (case oid of
        a # b # cs \<Rightarrow> add_asn1 0x06 (base128Int (40 * a + b) @ concat (map base128Int cs))
      | _ \<Rightarrow> [])"

definition encodeTPMPolicy :: "TPMPolicy \<Rightarrow> byte list" where
  \<comment> \<open>Modelled from the spec: Encode is missing from the sources;
      \<^verbatim>\<open>TPMPolicy ::= SEQUENCE { commandCode [0] EXPLICIT INTEGER,
      commandPolicy [1] EXPLICIT OCTET STRING }\<close>\<close>
  "encodeTPMPolicy p =
     add_asn1 0x30 (add_asn1 0xA0 (der_integer (commandCode p)) @
                    add_asn1 0xA1 (add_asn1 0x04 (commandPolicy p)))"

definition encodePolicies :: "TPMPolicy slice \<Rightarrow> byte list" where
  \<comment> \<open>Modelled from the spec: Encode is missing from the sources;
      \<^verbatim>\<open>policy [1] EXPLICIT SEQUENCE OF TPMPolicy OPTIONAL\<close>. The specification has
      the wrapper written again whenever the input had one, also around no element. The Key
      holds no presence bit; what it keeps of the input is the slice of the policy decoder,
      which is the empty slice that is not nil exactly when the wrapper was absent. So the
      wrapper is left out for that slice and written for every other one, the nil slice
      included.\<close>
  "encodePolicies ps =
     (if ps = Slice [] then []
      else add_asn1 0xA1 (add_asn1 0x30 (concat (map encodeTPMPolicy (elems ps)))))"

definition encodeTPMAuthPolicy :: "TPMAuthPolicy \<Rightarrow> byte list" where
  \<comment> \<open>Modelled from the spec: Encode is missing from the sources;
      \<^verbatim>\<open>TPMAuthPolicy ::= SEQUENCE { name [0] EXPLICIT UTF8String OPTIONAL,
      policy [1] EXPLICIT SEQUENCE OF TPMPolicy }\<close>\<close>
  "encodeTPMAuthPolicy ap =
     add_asn1 0x30
       ((if ap_name ap = [] then [] else add_asn1 0xA0 (add_asn1 0x0C (ap_name ap))) @
        add_asn1 0xA1 (add_asn1 0x30 (concat (map encodeTPMPolicy (elems (ap_policy ap))))))"

definition encodeAuthPolicies :: "TPMAuthPolicy list \<Rightarrow> byte list" where
  \<comment> \<open>Modelled from the spec: Encode is missing from the sources;
      \<^verbatim>\<open>authPolicy [3] EXPLICIT SEQUENCE OF TPMAuthPolicy OPTIONAL\<close>, written when
      the Key has an auth-policy\<close>
  "encodeAuthPolicies aps =
     (if aps = [] then []
      else add_asn1 0xA3 (add_asn1 0x30 (concat (map encodeTPMAuthPolicy aps))))"

definition Encode :: "TPMKey \<Rightarrow> byte list" where
  \<comment> \<open>Modelled from the spec: Encode is missing from the sources. The fields in the order
      of the wire format. The empty-auth element is written for a true flag, the secret
      and the auth-policy wrapper when they are not empty, and the policy wrapper as
      \<open>encodePolicies\<close> says.\<close>
  "Encode k =
     add_asn1 0x30
       (der_oid (keytype k) @
        (if emptyAuth k then add_asn1 0xA0 (der_boolean True) else []) @
        encodePolicies (policy k) @
        (if secret k = [] then [] else add_asn1 0xA2 (add_asn1 0x04 (secret k))) @
        encodeAuthPolicies (authPolicy k) @
        der_integer (Parent k) @
        add_asn1 0x04 (Pubkey k) @
        add_asn1 0x04 (Privkey k))"

section \<open>Values for the examples\<close>

text \<open>
  A minimal key, a key with every field the decoder keeps, public areas over them, and
  instances of the external functions that the models above take as parameters.
\<close>

definition example_key :: TPMKey where
  "example_key = \<lparr>keytype = OIDLoadableKey, emptyAuth = False, policy = Slice [],
     secret = [],
     authPolicy = [], Parent = 0x40000001, Pubkey = [0xAA], Privkey = [0xBB]\<rparr>"

definition ecc_public :: "TPMECCCurve \<Rightarrow> bool \<Rightarrow> TPMTPublic" where
  "ecc_public curve sign = \<lparr>Type = TPMAlgECC, SignEncrypt = sign,
     Parameters = ParmsECC (TPMSECCParms curve),
     Unique = UniqueECC (TPMSECCPoint [0x01, 0x02] [0x03])\<rparr>"

definition example_full_key :: TPMKey where
  "example_full_key = \<lparr>keytype = OIDSealedKey, emptyAuth = True,
     policy = Slice [TPMPolicy 0x16B [0x01, 0x02, 0x03]], secret = [0x09, 0x09],
     authPolicy = [], Parent = 0x40000001, Pubkey = [0xAA], Privkey = [0xBB]\<rparr>"

definition contents_of :: "TPMTPublic \<Rightarrow> byte list \<Rightarrow> error + TPMTPublic" where
  \<comment> \<open>a \<open>Contents\<close> for a key whose public area parses to \<open>pub\<close>\<close>
  "contents_of pub blob = Inr pub"

definition contents_min_length :: "nat \<Rightarrow> TPMTPublic \<Rightarrow> byte list \<Rightarrow> error + TPMTPublic" where
  \<comment> \<open>a \<open>Contents\<close> that fails on blobs shorter than \<open>n\<close> bytes, as the unmarshalling of
      \<^verbatim>\<open>TPMT_PUBLIC\<close> does below its fixed-size fields\<close>
  "contents_min_length n pub blob =
     (if length blob < n then Inl ''unexpected EOF'' else Inr pub)"

definition example_RSAPub :: "TPMSRSAParms \<Rightarrow> byte list \<Rightarrow> error + rsa_PublicKey" where
  "example_RSAPub parms n =
     Inr \<lparr>N = SetBytes n, E = (if Exponent parms = 0 then 65537 else uint (Exponent parms))\<rparr>"

definition ecdsa_accepts_only ::
  "byte list \<Rightarrow> ecdsa_PublicKey option \<Rightarrow> byte list \<Rightarrow> byte list \<Rightarrow> bool" where
  \<comment> \<open>an ECDSA verification under which exactly the signature \<open>good\<close> is valid\<close>
  "ecdsa_accepts_only good pk hashed sig = (sig = good)"

definition rsa_accepts_only ::
  "byte list \<Rightarrow> rsa_PublicKey option \<Rightarrow> nat \<Rightarrow> byte list \<Rightarrow> byte list \<Rightarrow> error option" where
  "rsa_accepts_only good pk alg hashed sig =
     (if sig = good then None else Some ''crypto/rsa: verification error'')"

datatype 'tpm example_signer =
  ExampleSigner TPMKey "byte list \<times> error option" 'tpm "byte list \<times> error option"

definition example_NewTPMKeySigner ::
  "TPMKey \<Rightarrow> (unit \<Rightarrow> byte list \<times> error option) \<Rightarrow> (unit \<Rightarrow> 'tpm)
     \<Rightarrow> (TPMKey \<Rightarrow> byte list \<times> error option) \<Rightarrow> 'tpm example_signer" where
  \<comment> \<open>a signer handle that records the key and what the three closures answer\<close>
  "example_NewTPMKeySigner t ownerAuth tpm auth = ExampleSigner t (ownerAuth ()) (tpm ()) (auth t)"

definition payload_block :: "byte list \<Rightarrow> pem_Block option" where
  \<comment> \<open>for the examples: a dearmoring that takes the whole input as the payload of one
      block labelled \<^verbatim>\<open>TSS2 PRIVATE KEY\<close>\<close>
  "payload_block p = Some (Block ''TSS2 PRIVATE KEY'' p)"

section \<open>Evaluation rules\<close>

lemma oidComponents_Nil [simp]: "oidComponents [] = Some []"
  by (simp add: oidComponents.simps)

lemma oidComponents_Cons [simp]:
  "oidComponents (b # bs) =
     (case readBase128Int 0 0 (b # bs) of
        None \<Rightarrow> None
      | Some (v, bytes') \<Rightarrow>
          (case oidComponents bytes' of None \<Rightarrow> None | Some vs \<Rightarrow> Some (v # vs)))"
  by (subst oidComponents.simps) simp

lemmas der_eval = read_def readASN1_def ReadASN1_def PeekASN1Tag_def ReadOptionalASN1_def
  ReadASN1Boolean_def checkASN1Integer_def asn1Signed_def ReadASN1Integer_def
  ReadASN1ObjectIdentifier_def readUnsigned_def

lemmas oid_defs = OIDLoadableKey_def OIDImportbleKey_def OIDSealedKey_def OIDOldLoadableKey_def

lemma Parse_unwrapped:
  "unwrapPEM pem_Decode b = Inr der \<Longrightarrow> Parse pem_Decode b = Parse_der der"
  by (simp add: Parse_def)

lemma unwrapPEM_payload_block [simp]: "unwrapPEM payload_block p = Inr p"
  by (simp add: unwrapPEM_def payload_block_def)

section \<open>Reading what the encoder writes\<close>

text \<open>
  The readers accept every element the encoder writes, of less than \<open>2 ^ 32\<close> bytes, and
  return its contents; an integer is read back as it was for every 64-bit value.
\<close>

lemma and_0x80_iff: "(b :: byte) AND 0x80 = 0 \<longleftrightarrow> \<not> bit b 7"
proof -
  have "(0x80 :: byte) = push_bit 7 1" by simp
  then show ?thesis
    by (metis (no_types) and.commute and_exp_eq_0_iff_not_bit mult_1 push_bit_eq_mult)
qed

lemma bit7_of_nat: "bit (of_nat n :: byte) 7 \<longleftrightarrow> odd (n div 128)"
proof -
  have "bit (of_nat n :: byte) 7 \<longleftrightarrow> bit n 7" by (simp add: bit_of_nat_iff)
  also have "\<dots> \<longleftrightarrow> odd (n div 128)" by (simp add: bit_iff_odd)
  finally show ?thesis .
qed

lemma unat_byte_of_nat: "unat (of_nat n :: byte) = n mod 256"
  by (simp add: unat_of_nat)

lemma length_der_length: "1 \<le> length (der_length n) \<and> length (der_length n) \<le> 5"
  by (simp add: der_length_def)

lemma length_add_asn1:
  "length c + 2 \<le> length (add_asn1 t c) \<and> length (add_asn1 t c) \<le> length c + 6"
  using length_der_length [of "length c"] by (simp add: add_asn1_def)

lemma read_header:
  "length h = k \<Longrightarrow> read (h @ c @ rest) (k + length c) = Some (h @ c, rest)"
  by (simp add: read_def)

lemma read_header2: "read (a # b # c @ rest) (2 + length c) = Some (a # b # c, rest)"
  using read_header [of "[a, b]" 2 c rest] by simp

lemma read_header3: "read (a # b # x1 # c @ rest) (3 + length c) = Some (a # b # x1 # c, rest)"
  using read_header [of "[a, b, x1]" 3 c rest] by simp

lemma read_header4:
  "read (a # b # x1 # x2 # c @ rest) (4 + length c) = Some (a # b # x1 # x2 # c, rest)"
  using read_header [of "[a, b, x1, x2]" 4 c rest] by simp

lemma read_header5:
  "read (a # b # x1 # x2 # x3 # c @ rest) (5 + length c)
     = Some (a # b # x1 # x2 # x3 # c, rest)"
  using read_header [of "[a, b, x1, x2, x3]" 5 c rest] by simp

lemma read_header6:
  "read (a # b # x1 # x2 # x3 # x4 # c @ rest) (6 + length c)
     = Some (a # b # x1 # x2 # x3 # x4 # c, rest)"
  using read_header [of "[a, b, x1, x2, x3, x4]" 6 c rest] by simp

lemmas read_headers = read_header2 read_header3 read_header4 read_header5 read_header6

lemma readUnsigned_snoc: "readUnsigned (bs @ [b]) = readUnsigned bs * 256 + unat b"
  by (simp add: readUnsigned_def)

lemma readUnsigned_octets1: "n < 256 \<Longrightarrow> readUnsigned [of_nat n] = n"
  by (simp add: readUnsigned_def unat_byte_of_nat)

lemma readUnsigned_octets2:
  assumes "n < 65536" shows "readUnsigned [of_nat (n div 256), of_nat n] = n"
proof -
  have "n div 256 < 256" using assms by simp
  then have "readUnsigned [of_nat (n div 256)] = n div 256" by (rule readUnsigned_octets1)
  with readUnsigned_snoc [of "[of_nat (n div 256)]" "of_nat n"]
  show ?thesis by (simp add: unat_byte_of_nat)
qed

lemma readUnsigned_octets3:
  assumes "n < 16777216"
  shows "readUnsigned [of_nat (n div 65536), of_nat (n div 256), of_nat n] = n"
proof -
  have "n div 256 < 65536" using assms by simp
  then have "readUnsigned [of_nat (n div 256 div 256), of_nat (n div 256)] = n div 256"
    by (rule readUnsigned_octets2)
  moreover have "n div 256 div 256 = n div 65536" by (simp add: div_mult2_eq [symmetric])
  ultimately have "readUnsigned [of_nat (n div 65536), of_nat (n div 256)] = n div 256"
    by simp
  with readUnsigned_snoc [of "[of_nat (n div 65536), of_nat (n div 256)]" "of_nat n"]
  show ?thesis by (simp add: unat_byte_of_nat)
qed

lemma readUnsigned_octets4:
  assumes "n < 4294967296"
  shows "readUnsigned [of_nat (n div 16777216), of_nat (n div 65536), of_nat (n div 256),
           of_nat n] = n"
proof -
  have "n div 256 < 16777216" using assms by simp
  then have "readUnsigned [of_nat (n div 256 div 65536), of_nat (n div 256 div 256),
                of_nat (n div 256)] = n div 256"
    by (rule readUnsigned_octets3)
  moreover have "n div 256 div 256 = n div 65536" by (simp add: div_mult2_eq [symmetric])
  moreover have "n div 256 div 65536 = n div 16777216" by (simp add: div_mult2_eq [symmetric])
  ultimately have "readUnsigned [of_nat (n div 16777216), of_nat (n div 65536), of_nat (n div 256)]
      = n div 256"
    by simp
  with readUnsigned_snoc [of "[of_nat (n div 16777216), of_nat (n div 65536), of_nat (n div 256)]"
         "of_nat n"]
  show ?thesis by (simp add: unat_byte_of_nat)
qed

lemma readASN1_add_asn1:
  assumes "tag AND 0x1f \<noteq> 0x1f" and "length (add_asn1 tag c) < 2 ^ 32"
  shows "readASN1 (add_asn1 tag c @ rest) = Some (tag, c, rest)"
proof -
  let ?n = "length c"
  consider (a) "?n < 0x80" | (b) "0x80 \<le> ?n" "?n < 0x100" | (c) "0x100 \<le> ?n" "?n < 0x10000"
    | (d) "0x10000 \<le> ?n" "?n < 0x1000000" | (e) "0x1000000 \<le> ?n"
    by linarith
  then show ?thesis
  proof cases
    case a
    then show ?thesis using assms(1)
      by (simp add: add_asn1_def der_length_def readASN1_def read_def and_0x80_iff bit7_of_nat
          unat_byte_of_nat)
  next
    case b
    then have "c \<noteq> []" by auto
    with b show ?thesis using assms(1)
      by (simp add: add_asn1_def der_length_def readASN1_def read_headers and_0x80_iff
          unat_byte_of_nat readUnsigned_octets1 readUnsigned_octets2 readUnsigned_octets3 readUnsigned_octets4 Let_def)
  next
    case c
    then have "c \<noteq> []" by auto
    with c show ?thesis using assms(1)
      by (simp add: add_asn1_def der_length_def readASN1_def read_headers and_0x80_iff
          unat_byte_of_nat readUnsigned_octets1 readUnsigned_octets2 readUnsigned_octets3 readUnsigned_octets4 Let_def)
  next
    case d
    then have "c \<noteq> []" by auto
    with d show ?thesis using assms(1)
      by (simp add: add_asn1_def der_length_def readASN1_def read_headers and_0x80_iff
          unat_byte_of_nat readUnsigned_octets1 readUnsigned_octets2 readUnsigned_octets3 readUnsigned_octets4 Let_def)
  next
    case e
    then have "c \<noteq> []" by auto
    with e show ?thesis using assms
      by (simp add: add_asn1_def der_length_def readASN1_def read_headers and_0x80_iff
          unat_byte_of_nat readUnsigned_octets1 readUnsigned_octets2 readUnsigned_octets3 readUnsigned_octets4 Let_def)
  qed
qed

lemma ReadASN1_add_asn1:
  assumes "tag AND 0x1f \<noteq> 0x1f" and "length (add_asn1 tag c) < 2 ^ 32"
  shows "ReadASN1 (add_asn1 tag c @ rest) tag = Some (c, rest)"
  using readASN1_add_asn1 [OF assms] by (simp add: ReadASN1_def)

lemma PeekASN1Tag_add_asn1 [simp]: "PeekASN1Tag (add_asn1 t c @ rest) tag = (t = tag)"
  by (simp add: PeekASN1Tag_def add_asn1_def)

lemma length_int_octets [simp]: "length (int_octets n v) = n"
  by (induction n) auto

lemma sign_extend_take_bit:
  "k < 64 \<Longrightarrow>
     signed_drop_bit k (push_bit k (take_bit (64 - k) (v :: go_int))) = signed_take_bit (63 - k) v"
  by (rule bit_word_eqI) (auto simp: bit_simps)

lemma foldl_int_octets:
  "foldl (\<lambda>out b. push_bit 8 out OR ucast b) acc (int_octets m v)
     = push_bit (8 * m) acc OR take_bit (8 * m) v"
proof (induction m arbitrary: acc)
  case 0
  then show ?case by simp
next
  case (Suc m)
  have "push_bit (8 * m) (push_bit 8 acc OR ucast (ucast (drop_bit (8 * m) v) :: byte)) OR take_bit (8 * m) v
      = push_bit (8 + 8 * m) acc OR take_bit (8 + 8 * m) v"
    by (rule bit_word_eqI) (auto simp: bit_simps add.commute)
  with Suc show ?case by simp
qed

lemma sign_extend_octets:
  assumes "1 \<le> L" "L \<le> 8"
  shows "signed_drop_bit (64 - L * 8) (push_bit (64 - L * 8) (take_bit (8 * L) (v :: go_int)))
           = signed_take_bit (8 * L - 1) v"
proof -
  let ?k = "64 - L * 8"
  have k: "?k < 64" "64 - ?k = 8 * L" "63 - ?k = 8 * L - 1" using assms by auto
  from sign_extend_take_bit [OF k(1), of v] k show ?thesis by simp
qed

lemma asn1Signed_int_octets:
  assumes "1 \<le> L" "L \<le> 8" "signed_take_bit (8 * L - 1) v = v"
  shows "asn1Signed (int_octets L v) = Some v"
  using assms sign_extend_octets [OF assms(1,2), of v]
  by (simp add: asn1Signed_def foldl_int_octets)

lemma int_size_from_bounds: "n \<le> int_size_from fuel n v \<and> int_size_from fuel n v \<le> n + fuel"
  by (induction fuel n v rule: int_size_from.induct) auto

lemma int_size_from_fits:
  "int_size_from fuel n v < n + fuel \<Longrightarrow>
     signed_take_bit (8 * int_size_from fuel n v - 1) v = v"
  by (induction fuel n v rule: int_size_from.induct) (auto split: if_splits)

lemma int_size_from_least:
  "n \<le> m \<Longrightarrow> m < int_size_from fuel n v \<Longrightarrow> signed_take_bit (8 * m - 1) v \<noteq> v"
proof (induction fuel n v rule: int_size_from.induct)
  case (1 n v)
  then show ?case by simp
next
  case (2 fuel n v)
  show ?case
  proof (cases "signed_take_bit (8 * n - 1) v = v")
    case True
    with 2 show ?thesis by simp
  next
    case False
    show ?thesis
    proof (cases "m = n")
      case True
      with False show ?thesis by simp
    next
      case F: False
      with 2 False show ?thesis by simp
    qed
  qed
qed

lemma signed_take_bit_63: "signed_take_bit 63 (v :: go_int) = v"
  by (rule bit_word_eqI) (auto simp: bit_simps)

lemma int_size_bounds: "1 \<le> int_size v \<and> int_size v \<le> 8"
  using int_size_from_bounds [of 1 7 v] by (simp add: int_size_def)

lemma int_size_fits: "signed_take_bit (8 * int_size v - 1) v = v"
proof (cases "int_size v < 8")
  case True
  then show ?thesis using int_size_from_fits [of 7 1 v] by (simp add: int_size_def)
next
  case False
  with int_size_bounds [of v] have "int_size v = 8" by simp
  then show ?thesis by (simp add: signed_take_bit_63)
qed

lemma int_size_least: "1 \<le> m \<Longrightarrow> m < int_size v \<Longrightarrow> signed_take_bit (8 * m - 1) v \<noteq> v"
  using int_size_from_least [of 1 m 7 v] by (simp add: int_size_def)

lemma leading_zero_octet_shrinks:
  fixes v :: go_int
  assumes m: "8 \<le> m" "m \<le> 56"
    and fits: "signed_take_bit (m + 7) v = v"
    and b0: "(ucast (drop_bit m v) :: byte) = 0"
    and b1: "\<not> bit (ucast (drop_bit (m - 8) v) :: byte) 7"
  shows "signed_take_bit (m - 1) v = v"
proof (rule bit_word_eqI)
  fix n assume n: "n < LENGTH(64)"
  have hi: "\<not> bit v (m + i)" if "i < 8" for i
  proof -
    have "bit (ucast (drop_bit m v) :: byte) i = bit v (m + i)"
      using that m by (simp add: bit_simps)
    with b0 show ?thesis by simp
  qed
  have top: "bit v k = bit v (m + 7)" if "m + 7 \<le> k" "k < 64" for k
  proof -
    have "bit (signed_take_bit (m + 7) v) k = bit v (min (m + 7) k)"
      using that by (simp add: bit_simps)
    with fits that show ?thesis by (simp add: min_def)
  qed
  have low: "\<not> bit v (m - 1)"
  proof -
    have "bit (ucast (drop_bit (m - 8) v) :: byte) 7 = bit v (m - 8 + 7)"
      by (simp add: bit_simps)
    moreover have "m - 8 + 7 = m - 1" using m by simp
    ultimately show ?thesis using b1 by simp
  qed
  have zero: "\<not> bit v k" if k: "m - 1 \<le> k" "k < 64" for k
  proof -
    consider "k = m - 1" | "m \<le> k" "k < m + 8" | "m + 7 \<le> k" using k m by linarith
    then show ?thesis
    proof cases
      case 1
      with low show ?thesis by simp
    next
      case 2
      then have "k = m + (k - m)" "k - m < 8" by auto
      with hi [of "k - m"] show ?thesis by metis
    next
      case 3
      with top [of k] k hi [of 7] show ?thesis by simp
    qed
  qed
  show "bit (signed_take_bit (m - 1) v) n = bit v n"
  proof (cases "n \<le> m - 1")
    case True
    then show ?thesis using n by (simp add: bit_simps min_def)
  next
    case False
    then have "m - 1 \<le> n" by simp
    with zero [of n] zero [of "m - 1"] n m show ?thesis by (simp add: bit_simps min_def)
  qed
qed

lemma leading_ones_octet_shrinks:
  fixes v :: go_int
  assumes m: "8 \<le> m" "m \<le> 56"
    and fits: "signed_take_bit (m + 7) v = v"
    and b0: "(ucast (drop_bit m v) :: byte) = 0xff"
    and b1: "bit (ucast (drop_bit (m - 8) v) :: byte) 7"
  shows "signed_take_bit (m - 1) v = v"
proof (rule bit_word_eqI)
  fix n assume n: "n < LENGTH(64)"
  have ff: "bit (0xff :: byte) i" if "i < 8" for i
  proof -
    have "(0xff :: byte) = - 1" by simp
    then show ?thesis using that by (simp only: bit_minus_1_iff) simp
  qed
  have hi: "bit v (m + i)" if "i < 8" for i
  proof -
    have "bit (ucast (drop_bit m v) :: byte) i = bit v (m + i)"
      using that m by (simp add: bit_simps)
    with b0 ff [OF that] show ?thesis by simp
  qed
  have top: "bit v k = bit v (m + 7)" if "m + 7 \<le> k" "k < 64" for k
  proof -
    have "bit (signed_take_bit (m + 7) v) k = bit v (min (m + 7) k)"
      using that by (simp add: bit_simps)
    with fits that show ?thesis by (simp add: min_def)
  qed
  have low: "bit v (m - 1)"
  proof -
    have "bit (ucast (drop_bit (m - 8) v) :: byte) 7 = bit v (m - 8 + 7)"
      by (simp add: bit_simps)
    moreover have "m - 8 + 7 = m - 1" using m by simp
    ultimately show ?thesis using b1 by simp
  qed
  have one: "bit v k" if k: "m - 1 \<le> k" "k < 64" for k
  proof -
    consider "k = m - 1" | "m \<le> k" "k < m + 8" | "m + 7 \<le> k" using k m by linarith
    then show ?thesis
    proof cases
      case 1
      with low show ?thesis by simp
    next
      case 2
      then have "k = m + (k - m)" "k - m < 8" by auto
      with hi [of "k - m"] show ?thesis by metis
    next
      case 3
      with top [of k] k hi [of 7] show ?thesis by simp
    qed
  qed
  show "bit (signed_take_bit (m - 1) v) n = bit v n"
  proof (cases "n \<le> m - 1")
    case True
    then show ?thesis using n by (simp add: bit_simps min_def)
  next
    case False
    then have "m - 1 \<le> n" by simp
    with one [of n] one [of "m - 1"] n m show ?thesis by (simp add: bit_simps min_def)
  qed
qed

lemma int_octets_two:
  "2 \<le> L \<Longrightarrow> \<exists>tl. int_octets L v =
      ucast (drop_bit (8 * (L - 1)) v) # ucast (drop_bit (8 * (L - 1) - 8) v) # tl"
proof -
  assume "2 \<le> L"
  then obtain n where L: "L = Suc (Suc n)" by (metis Suc_le_D numeral_2_eq_2 Suc_le_mono)
  show ?thesis unfolding L by simp
qed

lemma checkASN1Integer_int_octets:
  "checkASN1Integer (int_octets (int_size v) v)"
proof (cases "int_size v = 1")
  case True
  then show ?thesis by (simp add: checkASN1Integer_def)
next
  case False
  let ?L = "int_size v"
  let ?m = "8 * (?L - 1)"
  from False int_size_bounds [of v] have L: "2 \<le> ?L" "?L \<le> 8" by auto
  then have m: "8 \<le> ?m" "?m \<le> 56" by auto
  have fits: "signed_take_bit (?m + 7) v = v"
  proof -
    have "?m + 7 = 8 * ?L - 1" using L by simp
    then show ?thesis using int_size_fits [of v] by simp
  qed
  have nofit: "signed_take_bit (?m - 1) v \<noteq> v"
    using int_size_least [of "?L - 1" v] L by simp
  obtain tl where oct: "int_octets ?L v =
      ucast (drop_bit ?m v) # ucast (drop_bit (?m - 8) v) # tl"
    using int_octets_two [OF L(1), of v] by blast
  have a: "\<not> ((ucast (drop_bit ?m v) :: byte) = 0 \<and> (ucast (drop_bit (?m - 8) v) :: byte) AND 0x80 = 0)"
    using leading_zero_octet_shrinks [OF m fits] nofit by (auto simp: and_0x80_iff)
  have b: "\<not> ((ucast (drop_bit ?m v) :: byte) = 0xff \<and> (ucast (drop_bit (?m - 8) v) :: byte) AND 0x80 = 0x80)"
  proof
    assume h: "(ucast (drop_bit ?m v) :: byte) = 0xff \<and> (ucast (drop_bit (?m - 8) v) :: byte) AND 0x80 = 0x80"
    then have "(ucast (drop_bit (?m - 8) v) :: byte) AND 0x80 \<noteq> 0" by simp
    then have "bit (ucast (drop_bit (?m - 8) v) :: byte) 7" by (simp add: and_0x80_iff)
    with leading_ones_octet_shrinks [OF m fits] h nofit show False by blast
  qed
  from a b show ?thesis unfolding oct by (simp add: checkASN1Integer_def)
qed

lemma length_der_integer: "length (der_integer v) \<le> 10 \<and> 3 \<le> length (der_integer v)"
  using int_size_bounds [of v]
  by (simp add: der_integer_def add_asn1_def der_length_def)

lemma ReadASN1Integer_der_integer:
  "ReadASN1Integer (der_integer v @ rest) = Some (v, rest)"
proof -
  have len: "length (add_asn1 0x02 (int_octets (int_size v) v)) < 2 ^ 32"
    using length_der_integer [of v] by (simp add: der_integer_def)
  have "ReadASN1 (der_integer v @ rest) 0x02 = Some (int_octets (int_size v) v, rest)"
    unfolding der_integer_def by (rule ReadASN1_add_asn1 [OF _ len]) simp
  moreover have "asn1Signed (int_octets (int_size v) v) = Some v"
    using int_size_bounds [of v] int_size_fits [of v] by (intro asn1Signed_int_octets) auto
  ultimately show ?thesis
    by (simp add: ReadASN1Integer_def checkASN1Integer_int_octets)
qed

lemma ReadASN1ObjectIdentifier_der_oid:
  assumes "oid = OIDLoadableKey \<or> oid = OIDImportbleKey \<or> oid = OIDSealedKey \<or> oid = OIDOldLoadableKey"
  shows "ReadASN1ObjectIdentifier (der_oid oid @ rest) = Some (oid, rest)"
  using assms
  by (auto simp: oid_defs der_oid_def base128Int_def add_asn1_def der_length_def der_eval)

lemma PeekASN1Tag_der_integer [simp]: "PeekASN1Tag (der_integer v @ rest) tag = (tag = 0x02)"
  by (auto simp: der_integer_def)

lemma length_contents_less: "length c < length (add_asn1 t c)"
  using length_add_asn1 [of c t] by simp

lemma ReadOptionalASN1_present:
  assumes "tag AND 0x1f \<noteq> 0x1f" and "length (add_asn1 tag c) < 2 ^ 32"
  shows "ReadOptionalASN1 (add_asn1 tag c @ rest) tag = Some (Some c, rest)"
  using ReadASN1_add_asn1 [OF assms] by (simp add: ReadOptionalASN1_def)

lemma ReadOptionalASN1_absent:
  "\<not> PeekASN1Tag s tag \<Longrightarrow> ReadOptionalASN1 s tag = Some (None, s)"
  by (simp add: ReadOptionalASN1_def)

lemma ReadASN1_Nil_rest:
  assumes "tag AND 0x1f \<noteq> 0x1f" and "length (add_asn1 tag c) < 2 ^ 32"
  shows "ReadASN1 (add_asn1 tag c) tag = Some (c, [])"
  using ReadASN1_add_asn1 [OF assms, of "[]"] by simp

lemma ReadASN1Integer_Nil_rest: "ReadASN1Integer (der_integer v) = Some (v, [])"
  using ReadASN1Integer_der_integer [of v "[]"] by simp

lemma add_asn1_not_Nil [simp]: "add_asn1 t c \<noteq> []"
  by (simp add: add_asn1_def)

lemma parseTPMPolicy_encodePolicies_one:
  assumes len: "length (encodePolicies (Slice [p])) < 2 ^ 32"
  shows "parseTPMPolicy (encodePolicies (Slice [p]) @ rest) = Inr (Slice [p], rest)"
proof -
  let ?O = "add_asn1 0x04 (commandPolicy p)"
  let ?CP = "add_asn1 0xA1 ?O"
  let ?CC = "add_asn1 0xA0 (der_integer (commandCode p))"
  let ?P = "add_asn1 0x30 (?CC @ ?CP)"
  let ?S = "add_asn1 0x30 ?P"
  let ?W = "add_asn1 0xA1 ?S"
  have W: "length ?W < 2 ^ 32" using len by (simp add: encodePolicies_def encodeTPMPolicy_def)
  have S: "length ?S < 2 ^ 32" using W length_contents_less [of "?S" "0xA1"] by linarith
  have P: "length ?P < 2 ^ 32" using S length_contents_less [of "?P" "0x30"] by linarith
  have "length (?CC @ ?CP) < 2 ^ 32" using P length_contents_less [of "?CC @ ?CP" "0x30"] by linarith
  then have CC: "length ?CC < 2 ^ 32" and CP: "length ?CP < 2 ^ 32" by simp_all
  have O: "length ?O < 2 ^ 32" using CP length_contents_less [of "?O" "0xA1"] by linarith
  have r1: "ReadOptionalASN1 (?W @ rest) 0xA1 = Some (Some ?S, rest)"
    by (rule ReadOptionalASN1_present [OF _ W]) simp
  have r2: "ReadASN1 ?S 0x30 = Some (?P, [])"
    by (rule ReadASN1_Nil_rest [OF _ S]) simp
  have r3: "ReadASN1 ?P 0x30 = Some (?CC @ ?CP, [])"
    by (rule ReadASN1_Nil_rest [OF _ P]) simp
  have r4: "ReadASN1 (?CC @ ?CP) 0xA0 = Some (der_integer (commandCode p), ?CP)"
    by (rule ReadASN1_add_asn1 [OF _ CC]) simp
  have r5: "ReadASN1 ?CP 0xA1 = Some (?O, [])"
    by (rule ReadASN1_Nil_rest [OF _ CP]) simp
  have r6: "ReadASN1 ?O 0x04 = Some (commandPolicy p, [])"
    by (rule ReadASN1_Nil_rest [OF _ O]) simp
  show ?thesis
    unfolding parseTPMPolicy_def encodePolicies_def encodeTPMPolicy_def
    by (simp add: r1 r2 r3 r4 r5 r6 ReadASN1Integer_Nil_rest append_slice_def)
qed

lemma encodePolicies_NilSlice: "encodePolicies NilSlice = [0xA1, 0x02, 0x30, 0x00]"
  by (simp add: encodePolicies_def add_asn1_def der_length_def)

lemma parseTPMPolicy_empty_wrapper:
  "parseTPMPolicy ([0xA1, 0x02, 0x30, 0x00] @ rest) = Inr (NilSlice, rest)"
  by (simp add: parseTPMPolicy_def der_eval)

lemma parseTPMPolicy_encodePolicies:
  assumes "len ps \<le> 1" and "length (encodePolicies ps) < 2 ^ 32"
    and "\<not> PeekASN1Tag rest 0xA1"
  shows "parseTPMPolicy (encodePolicies ps @ rest) = Inr (ps, rest)"
proof (cases ps)
  case NilSlice
  then show ?thesis
    by (simp only: encodePolicies_NilSlice parseTPMPolicy_empty_wrapper)
next
  case (Slice xs)
  show ?thesis
  proof (cases xs)
    case Nil
    with Slice show ?thesis using assms(3)
      by (simp add: encodePolicies_def parseTPMPolicy_def ReadOptionalASN1_absent)
  next
    case (Cons p qs)
    with Slice assms(1) have "ps = Slice [p]" by (simp add: len_def)
    with assms(2) show ?thesis by (simp add: parseTPMPolicy_encodePolicies_one)
  qed
qed

lemma ReadASN1Boolean_der_boolean: "ReadASN1Boolean (der_boolean True) = Some (True, [])"
  by (simp add: der_boolean_def add_asn1_def der_length_def der_eval)

lemma length_der_boolean: "length (add_asn1 0xA0 (der_boolean True)) = 5"
  by (simp add: der_boolean_def add_asn1_def der_length_def)

lemma parseTPMAuthPolicy_absent:
  "\<not> PeekASN1Tag s 0xA3 \<Longrightarrow> parseTPMAuthPolicy s = Inr ([], s)"
  by (simp add: parseTPMAuthPolicy_def ReadOptionalASN1_absent)

lemma Parse_der_Encode:
  assumes kt: "keytype k = OIDLoadableKey \<or> keytype k = OIDImportbleKey \<or>
               keytype k = OIDSealedKey \<or> keytype k = OIDOldLoadableKey"
    and pol: "len (policy k) \<le> 1"
    and ap: "authPolicy k = []"
    and len: "length (Encode k) < 2 ^ 32"
  shows "Parse_der (Encode k) = Inr k"
proof -
  let ?PRIV = "add_asn1 0x04 (Privkey k)"
  let ?PUB = "add_asn1 0x04 (Pubkey k)"
  let ?INT = "der_integer (Parent k)"
  let ?SECO = "add_asn1 0x04 (secret k)"
  let ?SEC = "if secret k = [] then [] else add_asn1 0xA2 ?SECO"
  let ?POL = "encodePolicies (policy k)"
  let ?EA = "if emptyAuth k then add_asn1 0xA0 (der_boolean True) else []"
  let ?OID = "der_oid (keytype k)"
  let ?r4 = "?INT @ ?PUB @ ?PRIV"
  let ?r3 = "?SEC @ ?r4"
  let ?r2 = "?POL @ ?r3"
  let ?r1 = "?EA @ ?r2"
  let ?body = "?OID @ ?r1"
  have e: "Encode k = add_asn1 0x30 ?body"
    by (simp add: Encode_def ap encodeAuthPolicies_def)
  have "length ?body < 2 ^ 32"
    using len length_contents_less [of ?body "0x30"] unfolding e by linarith
  then have bounds: "length ?POL < 2 ^ 32" "length ?SEC < 2 ^ 32" "length ?PUB < 2 ^ 32"
    "length ?PRIV < 2 ^ 32"
    by simp_all
  have s0: "ReadASN1 (Encode k) 0x30 = Some (?body, [])"
    unfolding e using len [unfolded e] by (intro ReadASN1_Nil_rest) simp_all
  have s1: "ReadASN1ObjectIdentifier ?body = Some (keytype k, ?r1)"
    using kt by (rule ReadASN1ObjectIdentifier_der_oid)
  have p2: "\<not> PeekASN1Tag ?r2 0xA0"
    by (simp add: encodePolicies_def)
  have s2: "ReadOptionalASN1 ?r1 0xA0 =
              Some (if emptyAuth k then Some (der_boolean True) else None, ?r2)"
  proof (cases "emptyAuth k")
    case True
    have "ReadOptionalASN1 (add_asn1 0xA0 (der_boolean True) @ ?r2) 0xA0
            = Some (Some (der_boolean True), ?r2)"
      by (rule ReadOptionalASN1_present) (simp_all add: length_der_boolean)
    with True show ?thesis by simp
  next
    case False
    with ReadOptionalASN1_absent [OF p2] show ?thesis by simp
  qed
  have p3: "\<not> PeekASN1Tag ?r3 0xA1"
    by simp
  have s3: "parseTPMPolicy ?r2 = Inr (policy k, ?r3)"
    using pol bounds(1) p3 by (rule parseTPMPolicy_encodePolicies)
  have s4: "ReadOptionalASN1 ?r3 0xA2 =
              Some (if secret k = [] then None else Some ?SECO, ?r4)"
  proof (cases "secret k = []")
    case True
    have "\<not> PeekASN1Tag ?r4 0xA2" by simp
    from ReadOptionalASN1_absent [OF this] True show ?thesis by simp
  next
    case False
    with bounds(2) have "length (add_asn1 0xA2 ?SECO) < 2 ^ 32" by simp
    then have "ReadOptionalASN1 (add_asn1 0xA2 ?SECO @ ?r4) 0xA2 = Some (Some ?SECO, ?r4)"
      by (intro ReadOptionalASN1_present) simp_all
    with False show ?thesis by simp
  qed
  have s4': "secret k \<noteq> [] \<Longrightarrow> ReadASN1 ?SECO 0x04 = Some (secret k, [])"
  proof -
    assume "secret k \<noteq> []"
    with bounds(2) have "length (add_asn1 0xA2 ?SECO) < 2 ^ 32" by simp
    with length_contents_less [of ?SECO "0xA2"] have "length ?SECO < 2 ^ 32" by linarith
    then show ?thesis by (intro ReadASN1_Nil_rest) simp_all
  qed
  have s5: "parseTPMAuthPolicy ?r4 = Inr ([], ?r4)"
    by (rule parseTPMAuthPolicy_absent) simp
  have s6: "ReadASN1Integer ?r4 = Some (Parent k, ?PUB @ ?PRIV)"
    by (rule ReadASN1Integer_der_integer)
  have s7: "ReadASN1 (?PUB @ ?PRIV) 0x04 = Some (Pubkey k, ?PRIV)"
    using bounds(3) by (intro ReadASN1_add_asn1) simp_all
  have s8: "ReadASN1 ?PRIV 0x04 = Some (Privkey k, [])"
    using bounds(4) by (intro ReadASN1_Nil_rest) simp_all
  show ?thesis
    unfolding Parse_der_def
    using kt ap
    by (simp add: s0 s1 s2 s3 s4 s4' s5 s6 s7 s8 ReadASN1Boolean_der_boolean)
qed

lemma parseTPMPolicy_at_most_one:
  "parseTPMPolicy der = Inr (ps, rest) \<Longrightarrow> len ps \<le> 1"
  by (auto simp: parseTPMPolicy_def len_def append_slice_def split: option.splits if_splits)

lemma parseTPMAuthPolicy_returns_none:
  "parseTPMAuthPolicy der = Inr (aps, rest) \<Longrightarrow> aps = []"
  by (auto simp: parseTPMAuthPolicy_def split: option.splits if_splits sum.splits)

lemma Parse_der_shape:
  assumes "Parse_der b = Inr k"
  shows "(keytype k = OIDLoadableKey \<or> keytype k = OIDImportbleKey \<or>
          keytype k = OIDSealedKey \<or> keytype k = OIDOldLoadableKey) \<and>
         len (policy k) \<le> 1 \<and> authPolicy k = []"
proof -
  have kt: "keytype k = OIDLoadableKey \<or> keytype k = OIDImportbleKey \<or>
            keytype k = OIDSealedKey \<or> keytype k = OIDOldLoadableKey"
    using assms unfolding Parse_der_def
    by (auto split: option.splits sum.splits if_splits)
  have pol: "len (policy k) \<le> 1"
    using assms unfolding Parse_der_def
    by (auto split: option.splits sum.splits if_splits)
       (drule parseTPMPolicy_at_most_one, simp)+
  have ap: "authPolicy k = []"
    using assms unfolding Parse_der_def
    by (auto split: option.splits sum.splits if_splits)
       (drule parseTPMAuthPolicy_returns_none, simp)+
  from kt pol ap show ?thesis by blast
qed

lemma Parse_der_Encode_stable:
  assumes "Parse_der b = Inr k" and "length (Encode k) < 2 ^ 32"
  shows "Parse_der (Encode k) = Inr k"
  using Parse_der_shape [OF assms(1)] assms(2) by (intro Parse_der_Encode) simp_all

lemma int_size_unfold:
  "int_size v =
     (if signed_take_bit 7 v = v then 1 else if signed_take_bit 15 v = v then 2
      else if signed_take_bit 23 v = v then 3 else if signed_take_bit 31 v = v then 4
      else if signed_take_bit 39 v = v then 5 else if signed_take_bit 47 v = v then 6
      else if signed_take_bit 55 v = v then 7 else 8)"
  by (simp add: int_size_def eval_nat_numeral)

lemma int_octets_numeral:
  "int_octets (numeral n) v =
     ucast (drop_bit (8 * pred_numeral n) v) # int_octets (pred_numeral n) v"
  by (simp add: numeral_eq_Suc)

lemmas encode_eval = Encode_def oid_defs der_oid_def base128Int_def add_asn1_def
  der_length_def encodePolicies_def encodeTPMPolicy_def encodeAuthPolicies_def der_integer_def
  der_boolean_def int_size_unfold int_octets_numeral

lemma Encode_example_full_key:
  "Encode example_full_key =
     [0x30, 0x32, 0x06, 0x06, 0x67, 0x81, 0x05, 0x0A, 0x01, 0x05,
      0xA0, 0x03, 0x01, 0x01, 0xFF,
      0xA1, 0x11, 0x30, 0x0F, 0x30, 0x0D, 0xA0, 0x04, 0x02, 0x02, 0x01, 0x6B,
      0xA1, 0x05, 0x04, 0x03, 0x01, 0x02, 0x03,
      0xA2, 0x04, 0x04, 0x02, 0x09, 0x09,
      0x02, 0x04, 0x40, 0x00, 0x00, 0x01, 0x04, 0x01, 0xAA, 0x04, 0x01, 0xBB]"
  by (simp add: example_full_key_def encode_eval)

lemma Encode_example_key:
  "Encode example_key =
     [0x30, 0x14, 0x06, 0x06, 0x67, 0x81, 0x05, 0x0A, 0x01, 0x03,
      0x02, 0x04, 0x40, 0x00, 0x00, 0x01, 0x04, 0x01, 0xAA, 0x04, 0x01, 0xBB]"
  by (simp add: example_key_def Encode_def oid_defs der_oid_def base128Int_def add_asn1_def
      der_length_def encodePolicies_def encodeAuthPolicies_def der_integer_def
      int_size_unfold int_octets_numeral)

lemma length_Encode_Pubkey:
  "length (Encode (example_key\<lparr>Pubkey := p\<rparr>)) \<le> length p + 33"
proof -
  let ?body = "der_oid OIDLoadableKey @ der_integer 0x40000001 @ add_asn1 0x04 p @
               add_asn1 0x04 [0xBB]"
  have pub: "length (add_asn1 0x04 p) \<le> length p + 6"
    using length_add_asn1 [of p "0x04"] by simp
  have oid: "length (der_oid OIDLoadableKey) = 8"
    by (simp add: oid_defs der_oid_def base128Int_def add_asn1_def der_length_def)
  have priv: "length (add_asn1 0x04 [0xBB]) = 3"
    by (simp add: add_asn1_def der_length_def)
  have "length ?body \<le> length p + 27"
    using pub length_der_integer [of "0x40000001"] by (auto simp: oid priv)
  moreover have "Encode (example_key\<lparr>Pubkey := p\<rparr>) = add_asn1 0x30 ?body"
    by (simp add: Encode_def example_key_def encodePolicies_def encodeAuthPolicies_def)
  ultimately show ?thesis using length_add_asn1 [of ?body "0x30"] by simp
qed

section \<open>The policy decoder\<close>

text \<open>
  C3. The claim: for a policy wrapper that is present and holds \<open>n\<close> well-formed inner policy
  elements, the policy decoder returns exactly \<open>n\<close> policies, one per element, in wire order.
  \<^verbatim>\<open>parseTPMPolicy\<close> reads the inner sequence under
  \<^verbatim>\<open>if !policySequence.Empty()\<close>, not under a loop, so it returns the first element only.
  The wrapper below holds two well-formed elements, (command code 7, policy bytes 01 02) and
  (command code 8, policy bytes 03 04); the decoder returns the first and leaves the cursor
  after the wrapper.
\<close>

theorem parseTPMPolicy_two_elements:
  "parseTPMPolicy
     [0xA1, 0x1C, 0x30, 0x1A,
      0x30, 0x0B, 0xA0, 0x03, 0x02, 0x01, 0x07, 0xA1, 0x04, 0x04, 0x02, 0x01, 0x02,
      0x30, 0x0B, 0xA0, 0x03, 0x02, 0x01, 0x08, 0xA1, 0x04, 0x04, 0x02, 0x03, 0x04,
      0x02, 0x01, 0x05]
   = Inr (Slice [TPMPolicy 7 [0x01, 0x02]], [0x02, 0x01, 0x05])"
  by (simp add: parseTPMPolicy_def append_slice_def der_eval)

section \<open>The auth-policy decoder\<close>

text \<open>
  C2. The claim: when the context-tag-3 wrapper is present and well-formed the auth-policy
  decoder returns the auth-policies parsed from it (and the empty sequence without error when
  the wrapper is absent), so the decoded Key holds the auth-policies of the wire.
  \<^verbatim>\<open>parseTPMAuthPolicy\<close> ends in \<^verbatim>\<open>return nil, nil\<close>: the wrapper below holds
  one well-formed auth-policy, named "a", with the policy (command code 7, policy bytes 01 02),
  and the decoder returns the empty sequence.
\<close>

theorem parseTPMAuthPolicy_discards:
  "parseTPMAuthPolicy
     [0xA3, 0x1A, 0x30, 0x18, 0x30, 0x16,
      0xA0, 0x03, 0x0C, 0x01, 0x61,
      0xA1, 0x0F, 0x30, 0x0D,
      0x30, 0x0B, 0xA0, 0x03, 0x02, 0x01, 0x07, 0xA1, 0x04, 0x04, 0x02, 0x01, 0x02,
      0x02, 0x01, 0x05]
   = Inr ([], [0x02, 0x01, 0x05])"
  by (simp add: parseTPMAuthPolicy_def parseTPMPolicy_def append_slice_def len_def der_eval)

section \<open>The key-file decoder\<close>

text \<open>
  C6. The claim: for every input whose outer sequence begins with an object identifier that
  is not one of the four recognised key types, decoding fails with the unknown-key-type
  error, and for every input whose identifier is one of the four the identifier is stored in
  the Key as read. The reader of object identifiers refuses a component of \<open>2 ^ 31\<close> or
  more: the payload below begins with the well-formed identifier 2.23.2147483648
  (\<^verbatim>\<open>06 06 67 88 80 80 80 00\<close>), which is none of the four, and decoding fails with
  the error "no contentinfo oid", not with "unknown key type".
\<close>

theorem Parse_large_arc_no_oid:
  "Parse payload_block
     [0x30, 0x11, 0x06, 0x06, 0x67, 0x88, 0x80, 0x80, 0x80, 0x00,
      0x02, 0x01, 0x05, 0x04, 0x01, 0xAA, 0x04, 0x01, 0xBB]
   = Inl ''no contentinfo oid''"
  by (simp add: Parse_def Parse_der_def der_eval)

text \<open>
  C6, as amended: for every input whose outer sequence begins with an object identifier that
  the reader reads (every component below \<open>2 ^ 31\<close>). When the identifier is none of the
  four recognised key types, decoding fails with the error "unknown key type". When it is one
  of the four, decoding does not fail with that error; every Key that decoding returns has
  the identifier as read for its key type; and when the parent and the two octet strings
  follow the identifier with no optional element before them, decoding returns the Key with
  that key type and those three fields.
\<close>

theorem Parse_keytype:
  assumes "unwrapPEM pem_Decode b = Inr der"
    and "ReadASN1 der 0x30 = Some (s, r)"
    and "ReadASN1ObjectIdentifier s = Some (oid, s1)"
  shows "(oid \<notin> {OIDLoadableKey, OIDImportbleKey, OIDSealedKey, OIDOldLoadableKey}
            \<longrightarrow> Parse pem_Decode b = Inl ''unknown key type'') \<and>
         (oid \<in> {OIDLoadableKey, OIDImportbleKey, OIDSealedKey, OIDOldLoadableKey}
            \<longrightarrow> Parse pem_Decode b \<noteq> Inl ''unknown key type'') \<and>
         (\<forall>k. Parse pem_Decode b = Inr k
            \<longrightarrow> oid \<in> {OIDLoadableKey, OIDImportbleKey, OIDSealedKey, OIDOldLoadableKey}
                \<and> keytype k = oid) \<and>
         (\<forall>parent s2 pub s3 priv s4.
            oid \<in> {OIDLoadableKey, OIDImportbleKey, OIDSealedKey, OIDOldLoadableKey} \<and>
            \<not> PeekASN1Tag s1 0xA0 \<and> \<not> PeekASN1Tag s1 0xA1 \<and>
            \<not> PeekASN1Tag s1 0xA2 \<and> \<not> PeekASN1Tag s1 0xA3 \<and>
            ReadASN1Integer s1 = Some (parent, s2) \<and>
            ReadASN1 s2 0x04 = Some (pub, s3) \<and> ReadASN1 s3 0x04 = Some (priv, s4)
            \<longrightarrow> Parse pem_Decode b =
                  Inr \<lparr>keytype = oid, emptyAuth = False, policy = Slice [], secret = [],
                       authPolicy = [], Parent = parent, Pubkey = pub, Privkey = priv\<rparr>)"
proof -
  have P: "Parse pem_Decode b = Parse_der der"
    using assms(1) by (rule Parse_unwrapped)
  have c1: "oid \<notin> {OIDLoadableKey, OIDImportbleKey, OIDSealedKey, OIDOldLoadableKey}
            \<longrightarrow> Parse pem_Decode b = Inl ''unknown key type''"
    unfolding P Parse_der_def using assms(2,3) by simp
  have pol: "parseTPMPolicy c \<noteq> Inl ''unknown key type''" for c
    by (auto simp: parseTPMPolicy_def split: option.splits if_splits)
  have ap: "parseTPMAuthPolicy c \<noteq> Inl ''unknown key type''" for c
    by (auto simp: parseTPMAuthPolicy_def parseTPMPolicy_def split: option.splits if_splits sum.splits)
  have c2: "oid \<in> {OIDLoadableKey, OIDImportbleKey, OIDSealedKey, OIDOldLoadableKey}
            \<longrightarrow> Parse pem_Decode b \<noteq> Inl ''unknown key type''"
    unfolding P Parse_der_def using assms(2,3) pol ap
    by (auto split: option.splits sum.splits if_splits)
  have c3: "\<forall>k. Parse pem_Decode b = Inr k
            \<longrightarrow> oid \<in> {OIDLoadableKey, OIDImportbleKey, OIDSealedKey, OIDOldLoadableKey}
                \<and> keytype k = oid"
    unfolding P Parse_der_def using assms(2,3)
    by (auto split: option.splits sum.splits if_splits)
  have c4: "\<forall>parent s2 pub s3 priv s4.
            oid \<in> {OIDLoadableKey, OIDImportbleKey, OIDSealedKey, OIDOldLoadableKey} \<and>
            \<not> PeekASN1Tag s1 0xA0 \<and> \<not> PeekASN1Tag s1 0xA1 \<and>
            \<not> PeekASN1Tag s1 0xA2 \<and> \<not> PeekASN1Tag s1 0xA3 \<and>
            ReadASN1Integer s1 = Some (parent, s2) \<and>
            ReadASN1 s2 0x04 = Some (pub, s3) \<and> ReadASN1 s3 0x04 = Some (priv, s4)
            \<longrightarrow> Parse pem_Decode b =
                  Inr \<lparr>keytype = oid, emptyAuth = False, policy = Slice [], secret = [],
                       authPolicy = [], Parent = parent, Pubkey = pub, Privkey = priv\<rparr>"
    unfolding P Parse_der_def using assms(2,3)
    by (auto simp: ReadOptionalASN1_absent parseTPMPolicy_def parseTPMAuthPolicy_def)
  from c1 c2 c3 c4 show ?thesis by blast
qed

theorem Parse_keytype_witness:
  "Parse payload_block
     [0x30, 0x10, 0x06, 0x05, 0x67, 0x81, 0x05, 0x0A, 0x03,
      0x02, 0x01, 0x05, 0x04, 0x01, 0xAA, 0x04, 0x01, 0xBB]
   = Inl ''unknown key type'' \<and>
   Parse payload_block
     [0x30, 0x11, 0x06, 0x06, 0x67, 0x81, 0x05, 0x0A, 0x01, 0x03,
      0x02, 0x01, 0x05, 0x04, 0x01, 0xAA, 0x04, 0x01, 0xBB]
   = Inr \<lparr>keytype = [2, 23, 133, 10, 1, 3], emptyAuth = False, policy = Slice [],
          secret = [], authPolicy = [], Parent = 5, Pubkey = [0xAA], Privkey = [0xBB]\<rparr> \<and>
   Parse payload_block
     [0x30, 0x11, 0x06, 0x06, 0x67, 0x81, 0x05, 0x0A, 0x01, 0x04,
      0x02, 0x01, 0x05, 0x04, 0x01, 0xAA, 0x04, 0x01, 0xBB]
   = Inr \<lparr>keytype = [2, 23, 133, 10, 1, 4], emptyAuth = False, policy = Slice [],
          secret = [], authPolicy = [], Parent = 5, Pubkey = [0xAA], Privkey = [0xBB]\<rparr> \<and>
   Parse payload_block
     [0x30, 0x11, 0x06, 0x06, 0x67, 0x81, 0x05, 0x0A, 0x01, 0x05,
      0x02, 0x01, 0x05, 0x04, 0x01, 0xAA, 0x04, 0x01, 0xBB]
   = Inr \<lparr>keytype = [2, 23, 133, 10, 1, 5], emptyAuth = False, policy = Slice [],
          secret = [], authPolicy = [], Parent = 5, Pubkey = [0xAA], Privkey = [0xBB]\<rparr> \<and>
   Parse payload_block
     [0x30, 0x10, 0x06, 0x05, 0x67, 0x81, 0x05, 0x0A, 0x02,
      0x02, 0x01, 0x05, 0x04, 0x01, 0xAA, 0x04, 0x01, 0xBB]
   = Inr \<lparr>keytype = [2, 23, 133, 10, 2], emptyAuth = False, policy = Slice [],
          secret = [], authPolicy = [], Parent = 5, Pubkey = [0xAA], Privkey = [0xBB]\<rparr>"
proof -
  let ?s1 = "[0x02, 0x01, 0x05, 0x04, 0x01, 0xAA, 0x04, 0x01, 0xBB] :: byte list"
  let ?four = "{OIDLoadableKey, OIDImportbleKey, OIDSealedKey, OIDOldLoadableKey}"
  have np: "\<not> PeekASN1Tag ?s1 0xA0" "\<not> PeekASN1Tag ?s1 0xA1"
    "\<not> PeekASN1Tag ?s1 0xA2" "\<not> PeekASN1Tag ?s1 0xA3"
    by (simp_all add: der_eval)
  have parent: "ReadASN1Integer ?s1 = Some (5, [0x04, 0x01, 0xAA, 0x04, 0x01, 0xBB])"
    by (simp add: der_eval)
  have pub: "ReadASN1 [0x04, 0x01, 0xAA, 0x04, 0x01, 0xBB] 0x04 = Some ([0xAA], [0x04, 0x01, 0xBB])"
    by (simp add: der_eval)
  have priv: "ReadASN1 [0x04, 0x01, 0xBB] 0x04 = Some ([0xBB], [])"
    by (simp add: der_eval)
  have unknown: "Parse payload_block
     [0x30, 0x10, 0x06, 0x05, 0x67, 0x81, 0x05, 0x0A, 0x03,
      0x02, 0x01, 0x05, 0x04, 0x01, 0xAA, 0x04, 0x01, 0xBB]
   = Inl ''unknown key type''"
  proof -
    let ?b = "[0x30, 0x10, 0x06, 0x05, 0x67, 0x81, 0x05, 0x0A, 0x03,
               0x02, 0x01, 0x05, 0x04, 0x01, 0xAA, 0x04, 0x01, 0xBB] :: byte list"
    have h1: "unwrapPEM payload_block ?b = Inr ?b" by simp
    have h2: "ReadASN1 ?b 0x30 = Some ([0x06, 0x05, 0x67, 0x81, 0x05, 0x0A, 0x03] @ ?s1, [])"
      by (simp add: der_eval)
    have h3: "ReadASN1ObjectIdentifier ([0x06, 0x05, 0x67, 0x81, 0x05, 0x0A, 0x03] @ ?s1)
                = Some ([2, 23, 133, 10, 3], ?s1)"
      by (simp add: der_eval)
    have m: "[2, 23, 133, 10, 3] \<notin> ?four" by (simp add: oid_defs)
    from Parse_keytype [OF h1 h2 h3] m show ?thesis by blast
  qed
  have loadable: "Parse payload_block
     [0x30, 0x11, 0x06, 0x06, 0x67, 0x81, 0x05, 0x0A, 0x01, 0x03,
      0x02, 0x01, 0x05, 0x04, 0x01, 0xAA, 0x04, 0x01, 0xBB]
   = Inr \<lparr>keytype = [2, 23, 133, 10, 1, 3], emptyAuth = False, policy = Slice [],
          secret = [], authPolicy = [], Parent = 5, Pubkey = [0xAA], Privkey = [0xBB]\<rparr>"
  proof -
    let ?b = "[0x30, 0x11, 0x06, 0x06, 0x67, 0x81, 0x05, 0x0A, 0x01, 0x03,
               0x02, 0x01, 0x05, 0x04, 0x01, 0xAA, 0x04, 0x01, 0xBB] :: byte list"
    have h1: "unwrapPEM payload_block ?b = Inr ?b" by simp
    have h2: "ReadASN1 ?b 0x30
                = Some ([0x06, 0x06, 0x67, 0x81, 0x05, 0x0A, 0x01, 0x03] @ ?s1, [])"
      by (simp add: der_eval)
    have h3: "ReadASN1ObjectIdentifier ([0x06, 0x06, 0x67, 0x81, 0x05, 0x0A, 0x01, 0x03] @ ?s1)
                = Some ([2, 23, 133, 10, 1, 3], ?s1)"
      by (simp add: der_eval)
    have m: "[2, 23, 133, 10, 1, 3] \<in> ?four" by (simp add: oid_defs)
    from Parse_keytype [OF h1 h2 h3] m np parent pub priv show ?thesis by blast
  qed
  have importable: "Parse payload_block
     [0x30, 0x11, 0x06, 0x06, 0x67, 0x81, 0x05, 0x0A, 0x01, 0x04,
      0x02, 0x01, 0x05, 0x04, 0x01, 0xAA, 0x04, 0x01, 0xBB]
   = Inr \<lparr>keytype = [2, 23, 133, 10, 1, 4], emptyAuth = False, policy = Slice [],
          secret = [], authPolicy = [], Parent = 5, Pubkey = [0xAA], Privkey = [0xBB]\<rparr>"
  proof -
    let ?b = "[0x30, 0x11, 0x06, 0x06, 0x67, 0x81, 0x05, 0x0A, 0x01, 0x04,
               0x02, 0x01, 0x05, 0x04, 0x01, 0xAA, 0x04, 0x01, 0xBB] :: byte list"
    have h1: "unwrapPEM payload_block ?b = Inr ?b" by simp
    have h2: "ReadASN1 ?b 0x30
                = Some ([0x06, 0x06, 0x67, 0x81, 0x05, 0x0A, 0x01, 0x04] @ ?s1, [])"
      by (simp add: der_eval)
    have h3: "ReadASN1ObjectIdentifier ([0x06, 0x06, 0x67, 0x81, 0x05, 0x0A, 0x01, 0x04] @ ?s1)
                = Some ([2, 23, 133, 10, 1, 4], ?s1)"
      by (simp add: der_eval)
    have m: "[2, 23, 133, 10, 1, 4] \<in> ?four" by (simp add: oid_defs)
    from Parse_keytype [OF h1 h2 h3] m np parent pub priv show ?thesis by blast
  qed
  have sealed: "Parse payload_block
     [0x30, 0x11, 0x06, 0x06, 0x67, 0x81, 0x05, 0x0A, 0x01, 0x05,
      0x02, 0x01, 0x05, 0x04, 0x01, 0xAA, 0x04, 0x01, 0xBB]
   = Inr \<lparr>keytype = [2, 23, 133, 10, 1, 5], emptyAuth = False, policy = Slice [],
          secret = [], authPolicy = [], Parent = 5, Pubkey = [0xAA], Privkey = [0xBB]\<rparr>"
  proof -
    let ?b = "[0x30, 0x11, 0x06, 0x06, 0x67, 0x81, 0x05, 0x0A, 0x01, 0x05,
               0x02, 0x01, 0x05, 0x04, 0x01, 0xAA, 0x04, 0x01, 0xBB] :: byte list"
    have h1: "unwrapPEM payload_block ?b = Inr ?b" by simp
    have h2: "ReadASN1 ?b 0x30
                = Some ([0x06, 0x06, 0x67, 0x81, 0x05, 0x0A, 0x01, 0x05] @ ?s1, [])"
      by (simp add: der_eval)
    have h3: "ReadASN1ObjectIdentifier ([0x06, 0x06, 0x67, 0x81, 0x05, 0x0A, 0x01, 0x05] @ ?s1)
                = Some ([2, 23, 133, 10, 1, 5], ?s1)"
      by (simp add: der_eval)
    have m: "[2, 23, 133, 10, 1, 5] \<in> ?four" by (simp add: oid_defs)
    from Parse_keytype [OF h1 h2 h3] m np parent pub priv show ?thesis by blast
  qed
  have legacy: "Parse payload_block
     [0x30, 0x10, 0x06, 0x05, 0x67, 0x81, 0x05, 0x0A, 0x02,
      0x02, 0x01, 0x05, 0x04, 0x01, 0xAA, 0x04, 0x01, 0xBB]
   = Inr \<lparr>keytype = [2, 23, 133, 10, 2], emptyAuth = False, policy = Slice [],
          secret = [], authPolicy = [], Parent = 5, Pubkey = [0xAA], Privkey = [0xBB]\<rparr>"
  proof -
    let ?b = "[0x30, 0x10, 0x06, 0x05, 0x67, 0x81, 0x05, 0x0A, 0x02,
               0x02, 0x01, 0x05, 0x04, 0x01, 0xAA, 0x04, 0x01, 0xBB] :: byte list"
    have h1: "unwrapPEM payload_block ?b = Inr ?b" by simp
    have h2: "ReadASN1 ?b 0x30 = Some ([0x06, 0x05, 0x67, 0x81, 0x05, 0x0A, 0x02] @ ?s1, [])"
      by (simp add: der_eval)
    have h3: "ReadASN1ObjectIdentifier ([0x06, 0x05, 0x67, 0x81, 0x05, 0x0A, 0x02] @ ?s1)
                = Some ([2, 23, 133, 10, 2], ?s1)"
      by (simp add: der_eval)
    have m: "[2, 23, 133, 10, 2] \<in> ?four" by (simp add: oid_defs)
    from Parse_keytype [OF h1 h2 h3] m np parent pub priv show ?thesis by blast
  qed
  from unknown loadable importable sealed legacy show ?thesis by (intro conjI)
qed



section \<open>Decoding and encoding again\<close>

text \<open>
  C1. The claim: for every input that decodes into a Key, encoding that Key again gives the
  original bytes, byte for byte. The decoder ignores what follows the outer sequence: the
  first payload below is the second followed by one byte 00, both decode to the same Key, and
  the Key's encoding is the second payload, without the trailing byte.
\<close>

theorem Parse_der_trailing_bytes:
  "Parse_der
     [0x30, 0x14, 0x06, 0x06, 0x67, 0x81, 0x05, 0x0A, 0x01, 0x03,
      0x02, 0x04, 0x40, 0x00, 0x00, 0x01, 0x04, 0x01, 0xAA, 0x04, 0x01, 0xBB, 0x00]
   = Inr example_key \<and>
   Parse_der
     [0x30, 0x14, 0x06, 0x06, 0x67, 0x81, 0x05, 0x0A, 0x01, 0x03,
      0x02, 0x04, 0x40, 0x00, 0x00, 0x01, 0x04, 0x01, 0xAA, 0x04, 0x01, 0xBB]
   = Inr example_key \<and>
   Encode example_key =
     [0x30, 0x14, 0x06, 0x06, 0x67, 0x81, 0x05, 0x0A, 0x01, 0x03,
      0x02, 0x04, 0x40, 0x00, 0x00, 0x01, 0x04, 0x01, 0xAA, 0x04, 0x01, 0xBB]"
proof (intro conjI)
  show "Parse_der
     [0x30, 0x14, 0x06, 0x06, 0x67, 0x81, 0x05, 0x0A, 0x01, 0x03,
      0x02, 0x04, 0x40, 0x00, 0x00, 0x01, 0x04, 0x01, 0xAA, 0x04, 0x01, 0xBB, 0x00]
   = Inr example_key"
    by (simp add: Parse_der_def parseTPMPolicy_def parseTPMAuthPolicy_def der_eval oid_defs
        example_key_def)
  show "Parse_der
     [0x30, 0x14, 0x06, 0x06, 0x67, 0x81, 0x05, 0x0A, 0x01, 0x03,
      0x02, 0x04, 0x40, 0x00, 0x00, 0x01, 0x04, 0x01, 0xAA, 0x04, 0x01, 0xBB]
   = Inr example_key"
    by (simp add: Parse_der_def parseTPMPolicy_def parseTPMAuthPolicy_def der_eval oid_defs
        example_key_def)
  show "Encode example_key =
     [0x30, 0x14, 0x06, 0x06, 0x67, 0x81, 0x05, 0x0A, 0x01, 0x03,
      0x02, 0x04, 0x40, 0x00, 0x00, 0x01, 0x04, 0x01, 0xAA, 0x04, 0x01, 0xBB]"
    by (rule Encode_example_key)
qed

lemma Parse_der_explicit_false_emptyAuth:
  "Parse_der
     [0x30, 0x19, 0x06, 0x06, 0x67, 0x81, 0x05, 0x0A, 0x01, 0x03,
      0xA0, 0x03, 0x01, 0x01, 0x00,
      0x02, 0x04, 0x40, 0x00, 0x00, 0x01, 0x04, 0x01, 0xAA, 0x04, 0x01, 0xBB]
   = Inr example_key"
  by (simp add: Parse_der_def parseTPMPolicy_def parseTPMAuthPolicy_def der_eval oid_defs
      example_key_def)

text \<open>
  C1, as amended: for every input whose payload is the encoding of a Key of one of the four
  key types, with at most one policy and no auth-policy, shorter than \<open>2 ^ 32\<close> bytes,
  decoding succeeds and encoding the decoded Key gives back exactly that payload, whether or
  not the Key has a policy, a secret or the empty-auth flag.
\<close>

theorem Parse_Encode_roundtrip:
  assumes "pem_Decode b = Some blk"
    and "Block_Type blk = ''TSS2 PRIVATE KEY''"
    and "Block_Bytes blk = Encode k0"
    and "keytype k0 = OIDLoadableKey \<or> keytype k0 = OIDImportbleKey \<or>
         keytype k0 = OIDSealedKey \<or> keytype k0 = OIDOldLoadableKey"
    and "len (policy k0) \<le> 1"
    and "authPolicy k0 = []"
    and "length (Encode k0) < 2 ^ 32"
  shows "\<exists>k. Parse pem_Decode b = Inr k \<and> Encode k = Block_Bytes blk"
proof -
  have "unwrapPEM pem_Decode b = Inr (Encode k0)"
    using assms(1-3) by (simp add: unwrapPEM_def)
  then have "Parse pem_Decode b = Parse_der (Encode k0)"
    by (rule Parse_unwrapped)
  also have "\<dots> = Inr k0"
    using assms(4-7) by (rule Parse_der_Encode)
  finally show ?thesis using assms(3) by simp
qed

theorem Parse_Encode_roundtrip_witness:
  "\<exists>k. Parse payload_block
     [0x30, 0x32, 0x06, 0x06, 0x67, 0x81, 0x05, 0x0A, 0x01, 0x05,
      0xA0, 0x03, 0x01, 0x01, 0xFF,
      0xA1, 0x11, 0x30, 0x0F, 0x30, 0x0D, 0xA0, 0x04, 0x02, 0x02, 0x01, 0x6B,
      0xA1, 0x05, 0x04, 0x03, 0x01, 0x02, 0x03,
      0xA2, 0x04, 0x04, 0x02, 0x09, 0x09,
      0x02, 0x04, 0x40, 0x00, 0x00, 0x01, 0x04, 0x01, 0xAA, 0x04, 0x01, 0xBB] = Inr k \<and>
     Encode k =
     [0x30, 0x32, 0x06, 0x06, 0x67, 0x81, 0x05, 0x0A, 0x01, 0x05,
      0xA0, 0x03, 0x01, 0x01, 0xFF,
      0xA1, 0x11, 0x30, 0x0F, 0x30, 0x0D, 0xA0, 0x04, 0x02, 0x02, 0x01, 0x6B,
      0xA1, 0x05, 0x04, 0x03, 0x01, 0x02, 0x03,
      0xA2, 0x04, 0x04, 0x02, 0x09, 0x09,
      0x02, 0x04, 0x40, 0x00, 0x00, 0x01, 0x04, 0x01, 0xAA, 0x04, 0x01, 0xBB]"
proof -
  let ?b = "Encode example_full_key"
  let ?blk = "Block ''TSS2 PRIVATE KEY'' ?b"
  have h1: "payload_block ?b = Some ?blk" by (simp add: payload_block_def)
  have h2: "Block_Type ?blk = ''TSS2 PRIVATE KEY''" by simp
  have h3: "Block_Bytes ?blk = Encode example_full_key" by simp
  have h4: "keytype example_full_key = OIDLoadableKey \<or>
            keytype example_full_key = OIDImportbleKey \<or>
            keytype example_full_key = OIDSealedKey \<or>
            keytype example_full_key = OIDOldLoadableKey"
    by (simp add: example_full_key_def)
  have h5: "len (policy example_full_key) \<le> 1" by (simp add: example_full_key_def len_def)
  have h6: "authPolicy example_full_key = []" by (simp add: example_full_key_def)
  have h7: "length (Encode example_full_key) < 2 ^ 32"
    by (simp add: Encode_example_full_key)
  from Parse_Encode_roundtrip [of payload_block ?b ?blk example_full_key,
         OF h1 h2 h3 h4 h5 h6 h7]
  show ?thesis by (simp add: Encode_example_full_key)
qed

text \<open>
  C8. For an input that decodes, with the policy wrapper looked for after the key type and
  the empty-auth element: when the wrapper is present and its inner sequence holds no
  element, the Key's policy slice is the nil slice and the encoding of the Key has the
  wrapper \<^verbatim>\<open>A1 02 30 00\<close> at that place; when the wrapper is absent, the policy slice
  is the empty slice that is not nil and the encoding has no policy wrapper. The decoded Key
  so keeps the two inputs apart, and the encoder writes the wrapper for the one and not for
  the other.
\<close>

theorem Parse_policy_wrapper_presence:
  assumes "Parse pem_Decode b = Inr k"
    and "unwrapPEM pem_Decode b = Inr der"
    and "ReadASN1 der 0x30 = Some (s, r)"
    and "ReadASN1ObjectIdentifier s = Some (oid, s1)"
    and "ReadOptionalASN1 s1 0xA0 = Some (ea, s2)"
  shows "(\<forall>w s3 r'. ReadOptionalASN1 s2 0xA1 = Some (Some w, s3) \<and>
             ReadASN1 w 0x30 = Some ([], r') \<longrightarrow>
           policy k = NilSlice \<and>
           Encode k = add_asn1 0x30
             (der_oid oid @
              (if emptyAuth k then add_asn1 0xA0 (der_boolean True) else []) @
              [0xA1, 0x02, 0x30, 0x00] @
              (if secret k = [] then [] else add_asn1 0xA2 (add_asn1 0x04 (secret k))) @
              der_integer (Parent k) @ add_asn1 0x04 (Pubkey k) @ add_asn1 0x04 (Privkey k))) \<and>
         (\<forall>s3. ReadOptionalASN1 s2 0xA1 = Some (None, s3) \<longrightarrow>
           policy k = Slice [] \<and>
           Encode k = add_asn1 0x30
             (der_oid oid @
              (if emptyAuth k then add_asn1 0xA0 (der_boolean True) else []) @
              (if secret k = [] then [] else add_asn1 0xA2 (add_asn1 0x04 (secret k))) @
              der_integer (Parent k) @ add_asn1 0x04 (Pubkey k) @ add_asn1 0x04 (Privkey k)))"
proof -
  have P: "Parse_der der = Inr k"
    using assms(1,2) by (simp add: Parse_unwrapped)
  have ap: "authPolicy k = []"
    using Parse_der_shape [OF P] by simp
  have kt: "keytype k = oid"
    using P assms(3,4) unfolding Parse_der_def
    by (auto split: option.splits sum.splits if_splits)
  have E: "Encode k = add_asn1 0x30
             (der_oid oid @
              (if emptyAuth k then add_asn1 0xA0 (der_boolean True) else []) @
              encodePolicies (policy k) @
              (if secret k = [] then [] else add_asn1 0xA2 (add_asn1 0x04 (secret k))) @
              der_integer (Parent k) @ add_asn1 0x04 (Pubkey k) @ add_asn1 0x04 (Privkey k))"
    by (simp add: Encode_def ap kt encodeAuthPolicies_def)
  have present: "policy k = NilSlice"
    if "ReadOptionalASN1 s2 0xA1 = Some (Some w, s3)" "ReadASN1 w 0x30 = Some ([], r')"
    for w s3 r'
    using P assms(3,4,5) that unfolding Parse_der_def parseTPMPolicy_def
    by (auto split: option.splits sum.splits if_splits)
  have absent: "policy k = Slice []"
    if "ReadOptionalASN1 s2 0xA1 = Some (None, s3)" for s3
    using P assms(3,4,5) that unfolding Parse_der_def parseTPMPolicy_def
    by (auto split: option.splits sum.splits if_splits)
  have EP: "encodePolicies NilSlice @ rest = [0xA1, 0x02, 0x30, 0x00] @ rest" for rest
    by (simp only: encodePolicies_NilSlice)
  have EA: "encodePolicies (Slice []) = []"
    by (simp add: encodePolicies_def)
  show ?thesis
  proof (intro conjI allI impI)
    fix w s3 r'
    assume h: "ReadOptionalASN1 s2 0xA1 = Some (Some w, s3) \<and> ReadASN1 w 0x30 = Some ([], r')"
    then show n: "policy k = NilSlice" using present by blast
    show "Encode k = add_asn1 0x30
             (der_oid oid @
              (if emptyAuth k then add_asn1 0xA0 (der_boolean True) else []) @
              [0xA1, 0x02, 0x30, 0x00] @
              (if secret k = [] then [] else add_asn1 0xA2 (add_asn1 0x04 (secret k))) @
              der_integer (Parent k) @ add_asn1 0x04 (Pubkey k) @ add_asn1 0x04 (Privkey k))"
      unfolding E n EP ..
  next
    fix s3
    assume h: "ReadOptionalASN1 s2 0xA1 = Some (None, s3)"
    then show n: "policy k = Slice []" using absent by blast
    show "Encode k = add_asn1 0x30
             (der_oid oid @
              (if emptyAuth k then add_asn1 0xA0 (der_boolean True) else []) @
              (if secret k = [] then [] else add_asn1 0xA2 (add_asn1 0x04 (secret k))) @
              der_integer (Parent k) @ add_asn1 0x04 (Pubkey k) @ add_asn1 0x04 (Privkey k))"
      unfolding E n EA by simp
  qed
qed

theorem Parse_policy_wrapper_presence_witness:
  "Parse payload_block
     [0x30, 0x15, 0x06, 0x06, 0x67, 0x81, 0x05, 0x0A, 0x01, 0x03,
      0xA1, 0x02, 0x30, 0x00,
      0x02, 0x01, 0x05, 0x04, 0x01, 0xAA, 0x04, 0x01, 0xBB]
   = Inr \<lparr>keytype = [2, 23, 133, 10, 1, 3], emptyAuth = False, policy = NilSlice,
          secret = [], authPolicy = [], Parent = 5, Pubkey = [0xAA], Privkey = [0xBB]\<rparr> \<and>
   Encode \<lparr>keytype = [2, 23, 133, 10, 1, 3], emptyAuth = False, policy = NilSlice,
          secret = [], authPolicy = [], Parent = 5, Pubkey = [0xAA], Privkey = [0xBB]\<rparr>
   = [0x30, 0x15, 0x06, 0x06, 0x67, 0x81, 0x05, 0x0A, 0x01, 0x03,
      0xA1, 0x02, 0x30, 0x00,
      0x02, 0x01, 0x05, 0x04, 0x01, 0xAA, 0x04, 0x01, 0xBB] \<and>
   Parse payload_block
     [0x30, 0x11, 0x06, 0x06, 0x67, 0x81, 0x05, 0x0A, 0x01, 0x03,
      0x02, 0x01, 0x05, 0x04, 0x01, 0xAA, 0x04, 0x01, 0xBB]
   = Inr \<lparr>keytype = [2, 23, 133, 10, 1, 3], emptyAuth = False, policy = Slice [],
          secret = [], authPolicy = [], Parent = 5, Pubkey = [0xAA], Privkey = [0xBB]\<rparr> \<and>
   Encode \<lparr>keytype = [2, 23, 133, 10, 1, 3], emptyAuth = False, policy = Slice [],
          secret = [], authPolicy = [], Parent = 5, Pubkey = [0xAA], Privkey = [0xBB]\<rparr>
   = [0x30, 0x11, 0x06, 0x06, 0x67, 0x81, 0x05, 0x0A, 0x01, 0x03,
      0x02, 0x01, 0x05, 0x04, 0x01, 0xAA, 0x04, 0x01, 0xBB]"
proof -
  let ?s2p = "[0xA1, 0x02, 0x30, 0x00,
               0x02, 0x01, 0x05, 0x04, 0x01, 0xAA, 0x04, 0x01, 0xBB] :: byte list"
  let ?s2a = "[0x02, 0x01, 0x05, 0x04, 0x01, 0xAA, 0x04, 0x01, 0xBB] :: byte list"
  let ?oid = "[0x06, 0x06, 0x67, 0x81, 0x05, 0x0A, 0x01, 0x03] :: byte list"
  let ?bp = "[0x30, 0x15] @ ?oid @ ?s2p"
  let ?ba = "[0x30, 0x11] @ ?oid @ ?s2a"
  let ?kp = "\<lparr>keytype = [2, 23, 133, 10, 1, 3], emptyAuth = False, policy = NilSlice,
          secret = [], authPolicy = [], Parent = 5, Pubkey = [0xAA], Privkey = [0xBB]\<rparr>"
  let ?ka = "\<lparr>keytype = [2, 23, 133, 10, 1, 3], emptyAuth = False, policy = Slice [],
          secret = [], authPolicy = [], Parent = 5, Pubkey = [0xAA], Privkey = [0xBB]\<rparr>"
  have p0: "Parse payload_block ?bp = Inr ?kp"
    by (simp add: Parse_def Parse_der_def parseTPMPolicy_def parseTPMAuthPolicy_def
        der_eval oid_defs)
  have p1: "unwrapPEM payload_block ?bp = Inr ?bp" by simp
  have p2: "ReadASN1 ?bp 0x30 = Some (?oid @ ?s2p, [])" by (simp add: der_eval)
  have p3: "ReadASN1ObjectIdentifier (?oid @ ?s2p) = Some ([2, 23, 133, 10, 1, 3], ?s2p)"
    by (simp add: der_eval)
  have p4: "ReadOptionalASN1 ?s2p 0xA0 = Some (None, ?s2p)" by (simp add: der_eval)
  have p5: "ReadOptionalASN1 ?s2p 0xA1 = Some (Some [0x30, 0x00], ?s2a)"
    by (simp add: der_eval)
  have p6: "ReadASN1 [0x30, 0x00] 0x30 = Some ([], [])" by (simp add: der_eval)
  from Parse_policy_wrapper_presence [OF p0 p1 p2 p3 p4] p5 p6
  have "Encode ?kp = add_asn1 0x30
             (der_oid [2, 23, 133, 10, 1, 3] @
              (if emptyAuth ?kp then add_asn1 0xA0 (der_boolean True) else []) @
              [0xA1, 0x02, 0x30, 0x00] @
              (if secret ?kp = [] then [] else add_asn1 0xA2 (add_asn1 0x04 (secret ?kp))) @
              der_integer (Parent ?kp) @ add_asn1 0x04 (Pubkey ?kp) @
              add_asn1 0x04 (Privkey ?kp))"
    by blast
  then have ep: "Encode ?kp = ?bp"
    by (simp add: der_oid_def base128Int_def add_asn1_def der_length_def der_integer_def
        int_size_unfold int_octets_numeral)
  have a0: "Parse payload_block ?ba = Inr ?ka"
    by (simp add: Parse_def Parse_der_def parseTPMPolicy_def parseTPMAuthPolicy_def
        der_eval oid_defs)
  have a1: "unwrapPEM payload_block ?ba = Inr ?ba" by simp
  have a2: "ReadASN1 ?ba 0x30 = Some (?oid @ ?s2a, [])" by (simp add: der_eval)
  have a3: "ReadASN1ObjectIdentifier (?oid @ ?s2a) = Some ([2, 23, 133, 10, 1, 3], ?s2a)"
    by (simp add: der_eval)
  have a4: "ReadOptionalASN1 ?s2a 0xA0 = Some (None, ?s2a)" by (simp add: der_eval)
  have a5: "ReadOptionalASN1 ?s2a 0xA1 = Some (None, ?s2a)" by (simp add: der_eval)
  from Parse_policy_wrapper_presence [OF a0 a1 a2 a3 a4] a5
  have "Encode ?ka = add_asn1 0x30
             (der_oid [2, 23, 133, 10, 1, 3] @
              (if emptyAuth ?ka then add_asn1 0xA0 (der_boolean True) else []) @
              (if secret ?ka = [] then [] else add_asn1 0xA2 (add_asn1 0x04 (secret ?ka))) @
              der_integer (Parent ?ka) @ add_asn1 0x04 (Pubkey ?ka) @
              add_asn1 0x04 (Privkey ?ka))"
    by blast
  then have ea: "Encode ?ka = ?ba"
    by (simp add: der_oid_def base128Int_def add_asn1_def der_length_def der_integer_def
        int_size_unfold int_octets_numeral)
  from p0 ep a0 ea show ?thesis by simp
qed

text \<open>
  C10. The claim: for every Key obtained by decoding, the public-area blob parses, so the
  panic of the attribute queries is unreachable. The decoder takes the blob as the octet
  string it reads and never parses it: the payload below decodes to a Key whose public area
  is the single byte AA, and for a parser of the public area that needs at least the two
  bytes of the algorithm identifier, \<^verbatim>\<open>HasSinger\<close> panics on that Key.
\<close>

theorem Parse_der_unparsed_public_area:
  "Parse_der
     [0x30, 0x14, 0x06, 0x06, 0x67, 0x81, 0x05, 0x0A, 0x01, 0x03,
      0x02, 0x04, 0x40, 0x00, 0x00, 0x01, 0x04, 0x01, 0xAA, 0x04, 0x01, 0xBB]
   = Inr example_key \<and>
   HasSinger (contents_min_length 2 (ecc_public TPMECCNistP256 True)) example_key
   = Panicked ''can't serialize public key''"
  by (simp add: Parse_der_def parseTPMPolicy_def parseTPMAuthPolicy_def der_eval oid_defs
      example_key_def HasSinger_def contents_min_length_def)

text \<open>
  C10, as amended: decoding does not parse the public area. For every octet string of less
  than \<open>2 ^ 31\<close> bytes there is an input that decodes into a Key with that octet string as
  its public area; and when the parser of the public area rejects it, the attribute queries
  \<^verbatim>\<open>HasSinger\<close> and \<^verbatim>\<open>KeyAlgo\<close> on that Key panic.
\<close>

theorem Parse_der_any_public_area:
  assumes "length p < 2 ^ 31"
  shows "\<exists>b k. Parse_der b = Inr k \<and> Pubkey k = p \<and>
           (\<forall>Contents e. Contents p = Inl e \<longrightarrow>
              HasSinger Contents k = Panicked ''can't serialize public key'' \<and>
              KeyAlgo Contents k = Panicked ''can't serialize public key'')"
proof -
  let ?k = "example_key\<lparr>Pubkey := p\<rparr>"
  have "length (Encode ?k) < 2 ^ 32"
    using length_Encode_Pubkey [of p] assms by simp
  then have "Parse_der (Encode ?k) = Inr ?k"
    by (intro Parse_der_Encode) (simp_all add: example_key_def len_def)
  moreover have "Pubkey ?k = p" by simp
  moreover have "HasSinger Contents ?k = Panicked ''can't serialize public key'' \<and>
                 KeyAlgo Contents ?k = Panicked ''can't serialize public key''"
    if "Contents p = Inl e" for Contents e
    using that by (simp add: HasSinger_def KeyAlgo_def)
  ultimately show ?thesis by blast
qed

theorem Parse_der_any_public_area_witness:
  "\<exists>b k. Parse_der b = Inr k \<and> Pubkey k = [] \<and>
           (\<forall>Contents e. Contents [] = Inl e \<longrightarrow>
              HasSinger Contents k = Panicked ''can't serialize public key'' \<and>
              KeyAlgo Contents k = Panicked ''can't serialize public key'')"
proof -
  have "length ([] :: byte list) < 2 ^ 31" by simp
  from Parse_der_any_public_area [OF this] show ?thesis .
qed

section \<open>Public-key reconstruction\<close>

text \<open>
  C4. The claim: for a Key whose public area is an elliptic-curve key, reconstruction succeeds
  exactly for the curves P-256, P-384 and P-521 and fails with an unsupported-curve error for
  any other curve identifier, never returning a nil key without error. The
  \<^verbatim>\<open>switch\<close> of \<^verbatim>\<open>ecdsaPubKey\<close> has no default branch: for the curve
  identifier 0x0010 (BN P-256 in the TPM registry) it returns the nil key and a nil error.
\<close>

theorem ecdsaPubKey_other_curve_nil:
  "ecdsaPubKey (contents_of (ecc_public 0x0010 True)) example_key = Inr None"
  by (simp add: ecdsaPubKey_def contents_of_def ecc_public_def ECC_def ECCDetail_def
      TPMECCNistP256_def TPMECCNistP384_def TPMECCNistP521_def)

lemma ecdsaPubKey_supported:
  assumes "Contents (Pubkey t) = Inr pub"
    and "Unique pub = UniqueECC (TPMSECCPoint x y)"
    and "Parameters pub = ParmsECC (TPMSECCParms c)"
  shows "ecdsaPubKey Contents t =
           Inr (if c = TPMECCNistP256 then Some \<lparr>Curve = P256, X = SetBytes x, Y = SetBytes y\<rparr>
                else if c = TPMECCNistP384 then Some \<lparr>Curve = P384, X = SetBytes x, Y = SetBytes y\<rparr>
                else if c = TPMECCNistP521 then Some \<lparr>Curve = P521, X = SetBytes x, Y = SetBytes y\<rparr>
                else None)"
  using assms by (simp add: ecdsaPubKey_def ECC_def ECCDetail_def)

section \<open>Verifier\<close>

text \<open>
  C5. The claim: Verify returns true for a signature made by the matching private key and
  returns false without an error for a tampered signature or a mismatched digest, an error
  being produced only for a malformed signature encoding. For a P-256 key and an ECDSA
  verification that accepts the signature 30 06 02 01 01 02 01 01 only, the tampered
  signature 30 06 02 01 01 02 01 02 gives false together with the error "invalid signature".
\<close>

theorem Verify_rejected_with_error:
  "Verify (contents_of (ecc_public TPMECCNistP256 True)) example_RSAPub
     (ecdsa_accepts_only [0x30, 0x06, 0x02, 0x01, 0x01, 0x02, 0x01, 0x01])
     (rsa_accepts_only [])
     example_key 5 [0x11, 0x22] [0x30, 0x06, 0x02, 0x01, 0x01, 0x02, 0x01, 0x02]
   = Returned (False, Some ''invalid signature'')"
  by (simp add: Verify_def PublicKey_def KeyAlgo_def ecdsaPubKey_def contents_of_def
      ecc_public_def ECC_def ECCDetail_def TPMAlgECC_def TPMAlgRSA_def TPMECCNistP256_def
      ecdsa_accepts_only_def)

text \<open>
  C5, as amended: for a Key whose public key is reconstructed (a key, and no error), Verify
  returns true and no error exactly when the verification of the standard library (ECDSA
  over the ASN.1 signature, or RSA PKCS #1 v1.5) accepts the signature for the digest; when
  it rejects, for whatever reason, Verify returns false together with an error.
\<close>

theorem Verify_follows_verification:
  assumes "PublicKey Contents RSAPub t = Returned (pubkey, None)"
  shows "(\<forall>pk. pubkey = ECDSAKey (Some pk) \<longrightarrow>
            Verify Contents RSAPub VerifyASN1 VerifyPKCS1v15 t alg hashed sig =
              (if VerifyASN1 (Some pk) hashed sig then Returned (True, None)
               else Returned (False, Some ''invalid signature''))) \<and>
         (\<forall>pk. pubkey = RSAKey (Some pk) \<longrightarrow>
            Verify Contents RSAPub VerifyASN1 VerifyPKCS1v15 t alg hashed sig =
              (case VerifyPKCS1v15 (Some pk) alg hashed sig of
                 None \<Rightarrow> Returned (True, None)
               | Some e \<Rightarrow> Returned (False, Some (''signature verification failed: '' @ e))))"
  using assms by (simp add: Verify_def)

theorem Verify_follows_verification_witness:
  "Verify (contents_of (ecc_public TPMECCNistP256 True)) example_RSAPub
     (ecdsa_accepts_only [0x30, 0x06, 0x02, 0x01, 0x01, 0x02, 0x01, 0x01])
     (rsa_accepts_only [])
     example_key 5 [0x11, 0x22] [0x30, 0x06, 0x02, 0x01, 0x01, 0x02, 0x01, 0x01]
   = Returned (True, None)"
proof -
  let ?pk = "Some \<lparr>Curve = P256, X = 258, Y = 3\<rparr>"
  have h: "PublicKey (contents_of (ecc_public TPMECCNistP256 True)) example_RSAPub example_key
             = Returned (ECDSAKey ?pk, None)"
    by (simp add: PublicKey_def KeyAlgo_def ecdsaPubKey_def contents_of_def
        ecc_public_def ECC_def ECCDetail_def TPMAlgECC_def TPMAlgRSA_def TPMECCNistP256_def
        SetBytes_def)
  have acc: "ecdsa_accepts_only [0x30, 0x06, 0x02, 0x01, 0x01, 0x02, 0x01, 0x01] ?pk
               [0x11, 0x22] [0x30, 0x06, 0x02, 0x01, 0x01, 0x02, 0x01, 0x01]"
    by (simp add: ecdsa_accepts_only_def)
  from Verify_follows_verification
         [OF h, of "ecdsa_accepts_only [0x30, 0x06, 0x02, 0x01, 0x01, 0x02, 0x01, 0x01]"
            "rsa_accepts_only []" 5 "[0x11, 0x22]"
            "[0x30, 0x06, 0x02, 0x01, 0x01, 0x02, 0x01, 0x01]"] acc
  show ?thesis by simp
qed

lemma Verify_unsupported_curve_panics:
  "Verify (contents_of (ecc_public 0x0010 True)) example_RSAPub
     (ecdsa_accepts_only [0x30, 0x06, 0x02, 0x01, 0x01, 0x02, 0x01, 0x01])
     (rsa_accepts_only [])
     example_key 5 [0x11, 0x22] [0x30, 0x06, 0x02, 0x01, 0x01, 0x02, 0x01, 0x01]
   = Panicked ''runtime error: invalid memory address or nil pointer dereference''"
  by (simp add: Verify_def PublicKey_def KeyAlgo_def ecdsaPubKey_def contents_of_def
      ecc_public_def ECC_def ECCDetail_def TPMAlgECC_def TPMAlgRSA_def TPMECCNistP256_def
      TPMECCNistP384_def TPMECCNistP521_def)

section \<open>Signer\<close>

text \<open>
  C9. For a Key whose public area does not carry the sign/encrypt attribute (HasSigner
  returns false), Signer fails at once with the error "does not have sign/encrypt attribute
  set" and returns no handle; for a Key where HasSigner returns true it returns the handle
  built by the signer's constructor and no error.
\<close>

theorem Signer_needs_sign_attribute:
  "(HasSinger Contents t = Returned False \<longrightarrow>
      Signer Contents NewTPMKeySigner t tpm ownerAuth auth =
        Returned (None, Some ''does not have sign/encrypt attribute set'')) \<and>
   (HasSinger Contents t = Returned True \<longrightarrow>
      Signer Contents NewTPMKeySigner t tpm ownerAuth auth =
        Returned (Some (NewTPMKeySigner t (\<lambda>_. (ownerAuth, None)) (\<lambda>_. tpm)
                          (\<lambda>_. (auth, None))), None))"
  by (simp add: Signer_def)

theorem Signer_needs_sign_attribute_witness:
  "Signer (contents_of (ecc_public TPMECCNistP256 False)) example_NewTPMKeySigner
     example_key (0::nat) [0x01] [0x02]
   = Returned (None, Some ''does not have sign/encrypt attribute set'') \<and>
   Signer (contents_of (ecc_public TPMECCNistP256 True)) example_NewTPMKeySigner
     example_key (0::nat) [0x01] [0x02]
   = Returned (Some (ExampleSigner example_key ([0x01], None) 0 ([0x02], None)), None)"
proof -
  have no: "HasSinger (contents_of (ecc_public TPMECCNistP256 False)) example_key
              = Returned False"
    by (simp add: HasSinger_def contents_of_def ecc_public_def)
  have yes: "HasSinger (contents_of (ecc_public TPMECCNistP256 True)) example_key
              = Returned True"
    by (simp add: HasSinger_def contents_of_def ecc_public_def)
  from Signer_needs_sign_attribute
         [of "contents_of (ecc_public TPMECCNistP256 False)" example_key
             example_NewTPMKeySigner 0 "[0x01]" "[0x02]"] no
  have a: "Signer (contents_of (ecc_public TPMECCNistP256 False)) example_NewTPMKeySigner
             example_key (0::nat) [0x01] [0x02]
           = Returned (None, Some ''does not have sign/encrypt attribute set'')"
    by blast
  from Signer_needs_sign_attribute
         [of "contents_of (ecc_public TPMECCNistP256 True)" example_key
             example_NewTPMKeySigner 0 "[0x01]" "[0x02]"] yes
  have b: "Signer (contents_of (ecc_public TPMECCNistP256 True)) example_NewTPMKeySigner
             example_key (0::nat) [0x01] [0x02]
           = Returned (Some (ExampleSigner example_key ([0x01], None) 0 ([0x02], None)), None)"
    by (simp add: example_NewTPMKeySigner_def)
  from a b show ?thesis by (rule conjI)
qed

end
